theory Spec2Isabelle
  imports Main "HOL-Library.Char_ord" "HOL-Library.List_Lexorder"
begin

section \<open>Strings\<close>

text \<open>
  Strings are byte strings. Header names are ASCII tokens, so \<open>toLowerCase\<close> is modelled
  on the ASCII letters only: the bytes 65..90 (A..Z) move to 97..122, every other byte stays.
\<close>

definition lower_char :: "char \<Rightarrow> char" where
  "lower_char c =
     (let n = (of_char c :: nat) in if 65 \<le> n \<and> n \<le> 90 then char_of (n + 32) else c)"

definition toLowerCase :: "string \<Rightarrow> string" where
  "toLowerCase s = map lower_char s"

fun join :: "string \<Rightarrow> string list \<Rightarrow> string" where
  "join sep [] = []"
| "join sep [v] = v"
| "join sep (v # w # vs) = v @ sep @ join sep (w # vs)"

section \<open>The platform's Headers object\<close>

text \<open>
  A \<open>Headers\<close> object holds a header list: (name, value) pairs in arrival order, a name
  possibly several times, in the letter case it was given. Every operation of the
  interface compares names without regard to ASCII case:
  \<^item> \<open>get\<close> returns the values of all headers of that name joined by comma and space,
    or null (\<open>None\<close>) when there is none;
  \<^item> \<open>set\<close> overwrites the first header of that name and removes the others, or
    appends the header when the name is new;
  \<^item> iteration (\<open>keys\<close>, \<open>entries\<close>) runs over the lowercased names, sorted and
    without repetition, each with its combined value; only \<open>set-cookie\<close> is never
    combined and comes once per header.
  \<open>set\<close> and \<open>append\<close> first normalise the value: they remove leading and trailing
  HTTP whitespace (tab, line feed, carriage return, space). They also reject an invalid name
  or value; a collection holds valid names and values only, and the combined value of valid
  values is valid, so that check never fails on what the forwarder passes and is left out.
\<close>

type_synonym Headers = "(string \<times> string) list"

definition same_name :: "string \<Rightarrow> string \<Rightarrow> bool" where
  "same_name a b \<longleftrightarrow> toLowerCase a = toLowerCase b"

definition values_of :: "Headers \<Rightarrow> string \<Rightarrow> string list" where
  "values_of h name = map snd (filter (\<lambda>e. same_name (fst e) name) h)"

definition Headers_get :: "Headers \<Rightarrow> string \<Rightarrow> string option" where
  "Headers_get h name =
     (case values_of h name of [] \<Rightarrow> None | v # vs \<Rightarrow> Some (join '', '' (v # vs)))"

definition http_whitespace :: "char \<Rightarrow> bool" where
  "http_whitespace c \<longleftrightarrow> c = CHR 0x09 \<or> c = CHR 0x0A \<or> c = CHR 0x0D \<or> c = CHR 0x20"

definition normalize_value :: "string \<Rightarrow> string" where
  "normalize_value val = rev (dropWhile http_whitespace (rev (dropWhile http_whitespace val)))"

definition Headers_append :: "Headers \<Rightarrow> string \<Rightarrow> string \<Rightarrow> Headers" where
  "Headers_append h name val = h @ [(name, normalize_value val)]"

fun set_first :: "string \<Rightarrow> string \<Rightarrow> Headers \<Rightarrow> Headers" where
  "set_first name val [] = []"
| "set_first name val (e # h) =
     (if same_name (fst e) name
      then (fst e, val) # filter (\<lambda>e'. \<not> same_name (fst e') name) h
      else e # set_first name val h)"

definition Headers_set :: "Headers \<Rightarrow> string \<Rightarrow> string \<Rightarrow> Headers" where
  "Headers_set h name val =
     (if list_ex (\<lambda>e. same_name (fst e) name) h
      then set_first name (normalize_value val) h
      else Headers_append h name val)"

definition sorted_lowercase_names :: "Headers \<Rightarrow> string list" where
  "sorted_lowercase_names h = sort (remdups (map (\<lambda>e. toLowerCase (fst e)) h))"

definition Headers_entries :: "Headers \<Rightarrow> (string \<times> string) list" where
  "Headers_entries h =
     concat (map (\<lambda>name.
        if name = ''set-cookie'' then map (\<lambda>v. (name, v)) (values_of h name)
        else (case Headers_get h name of None \<Rightarrow> [] | Some v \<Rightarrow> [(name, v)]))
      (sorted_lowercase_names h))"

definition Headers_keys :: "Headers \<Rightarrow> string list" where
  "Headers_keys h = map fst (Headers_entries h)"

text \<open>The names a header list holds, lowercased.\<close>

definition lower_names :: "Headers \<Rightarrow> string set" where
  "lower_names h = (\<lambda>e. toLowerCase (fst e)) ` set h"

section \<open>Header filter, allow-list form (proxy.ts)\<close>

text \<open>
  An entry of the \<open>keys\<close> array is a string or a regular expression. A regular
  expression is modelled by the predicate its \<open>test\<close> method computes.
\<close>

datatype key_pattern = KString string | KRegExp "string \<Rightarrow> bool"

fun key_test :: "key_pattern \<Rightarrow> string \<Rightarrow> bool" where
  "key_test (KString k) key = (k = key)"
| "key_test (KRegExp k) key = k key"

fun pickHeaders_loop :: "Headers \<Rightarrow> key_pattern list \<Rightarrow> string list \<Rightarrow> Headers \<Rightarrow> Headers" where
  "pickHeaders_loop headers keys [] picked = picked"
| "pickHeaders_loop headers keys (key # rest) picked =
     pickHeaders_loop headers keys rest
       (if list_ex (\<lambda>k. key_test k key) keys
        then (case Headers_get headers key of
                Some val \<Rightarrow> Headers_set picked key val
              | None \<Rightarrow> picked)
        else picked)"

definition pickHeaders :: "Headers \<Rightarrow> key_pattern list \<Rightarrow> Headers" where
  "pickHeaders headers keys = pickHeaders_loop headers keys (Headers_keys headers) []"

definition ALLOWED_NAMES :: "string list" where
  "ALLOWED_NAMES =
     [''content-type'', ''authorization'', ''x-goog-api-client'', ''x-goog-api-key'',
      ''accept-encoding'']"

definition ALLOWED_HEADERS :: "key_pattern list" where
  "ALLOWED_HEADERS = map KString ALLOWED_NAMES"


section \<open>Header filter, deny-list form\<close>

definition BLOCKED_HEADERS :: "string list" where
  "BLOCKED_HEADERS =
     [''cookie'', ''set-cookie'', ''host'', ''referer'', ''user-agent'', ''x-forwarded-for'',
      ''x-real-ip'', ''x-forwarded-host'', ''x-forwarded-proto'']"

fun pickHeaders_deny_loop :: "Headers \<Rightarrow> string list \<Rightarrow> string list \<Rightarrow> Headers \<Rightarrow> Headers" where
  "pickHeaders_deny_loop headers blockedKeys [] picked = picked"
| "pickHeaders_deny_loop headers blockedKeys (key # rest) picked =
     pickHeaders_deny_loop headers blockedKeys rest
       (let lowerKey = toLowerCase key in
        if \<not> List.member blockedKeys lowerKey
        then (case Headers_get headers key of
                Some val \<Rightarrow> Headers_set picked key val
              | None \<Rightarrow> picked)
        else picked)"

definition pickHeaders_deny :: "Headers \<Rightarrow> string list \<Rightarrow> Headers" where
  "pickHeaders_deny headers blockedKeys =
     pickHeaders_deny_loop headers blockedKeys (Headers_keys headers) []"

section \<open>Values a JavaScript function can throw\<close>

text \<open>
  \<open>JsError m\<close> is an object for which \<open>instanceof Error\<close> holds, with message \<open>m\<close>
  (a TypeError of a failed network call, the DOMException of an aborted one);
  \<open>JsNull\<close> is \<open>null\<close>; \<open>JsOther\<close> is any other thrown value.
\<close>

datatype js_value = JsError string | JsNull | JsOther string

section \<open>URLs\<close>

text \<open>
  A parsed URL. \<open>host\<close> is the serialised host; \<open>searchParams\<close> are the decoded
  name/value pairs in order. The request's URL is kept in this parsed form, which is what
  \<open>new URL(request.url)\<close> yields.
\<close>

record URL =
  scheme :: string
  host :: string
  pathname :: string
  searchParams :: "(string \<times> string) list"

definition UPSTREAM :: URL where
  "UPSTREAM = \<lparr>scheme = ''https'', host = ''generativelanguage.googleapis.com'',
               pathname = ''/'', searchParams = []\<rparr>"

definition startsWith :: "string \<Rightarrow> string \<Rightarrow> bool" where
  "startsWith t prefix \<longleftrightarrow> take (length prefix) t = prefix"

text \<open>
  Two kinds of text that every URL parser reads in one way.
  A plain path starts with exactly one slash, is made of ASCII letters, digits and
  \<open>/ - _ . ~ :\<close> only, and has no segment that starts with a dot: as a reference it
  replaces the path of the base and is kept as it is.
  A plain host is at most 63 characters long and made of lowercase ASCII letters in labels
  separated by single dots: as a host it is kept as it is.
\<close>

definition path_char :: "char \<Rightarrow> bool" where
  "path_char c \<longleftrightarrow>
     (let n = (of_char c :: nat) in
      (97 \<le> n \<and> n \<le> 122) \<or> (65 \<le> n \<and> n \<le> 90) \<or> (48 \<le> n \<and> n \<le> 57)
      \<or> c \<in> set ''/-_.~:'')"

definition plain_path :: "string \<Rightarrow> bool" where
  "plain_path t \<longleftrightarrow>
     startsWith t ''/'' \<and> \<not> startsWith t ''//'' \<and> list_all path_char t
     \<and> list_all (\<lambda>p. \<not> (fst p = CHR ''/'' \<and> snd p = CHR ''.'')) (zip t (tl t))"

definition host_char :: "char \<Rightarrow> bool" where
  "host_char c \<longleftrightarrow>
     (let n = (of_char c :: nat) in (97 \<le> n \<and> n \<le> 122) \<or> c = CHR ''.'')"

definition plain_host :: "string \<Rightarrow> bool" where
  "plain_host t \<longleftrightarrow>
     t \<noteq> [] \<and> length t \<le> 63 \<and> list_all host_char t
     \<and> hd t \<noteq> CHR ''.'' \<and> last t \<noteq> CHR ''.''
     \<and> list_all (\<lambda>p. \<not> (fst p = CHR ''.'' \<and> snd p = CHR ''.'')) (zip t (tl t))"

definition searchParams_delete :: "string \<Rightarrow> (string \<times> string) list \<Rightarrow> (string \<times> string) list" where
  "searchParams_delete name params = filter (\<lambda>p. fst p \<noteq> name) params"

definition searchParams_append :: "URL \<Rightarrow> string \<Rightarrow> string \<Rightarrow> URL" where
  "searchParams_append u key val = u\<lparr>searchParams := searchParams u @ [(key, val)]\<rparr>"

section \<open>Requests, responses and plain objects\<close>

text \<open>
  A body is null, a stream (named by a handle: the forwarder never reads it) or a string.
  A request and the options of a call share \<open>headers\<close>, \<open>body\<close> and \<open>method\<close>;
  a response has \<open>headers\<close>, \<open>body\<close> and \<open>status\<close>.
\<close>

datatype body = NullBody | StreamBody nat | StringBody string

record message =
  headers :: Headers
  body :: body

record request_base = message +
  "method" :: string

record request = request_base +
  url :: URL

record request_init = request_base +
  signal :: "nat option"
  duplex :: "string option"

record response = message +
  status :: nat

text \<open>
  A plain object with string properties is the list of its properties in insertion order,
  each key once. Writing a key that exists keeps its place and replaces its value; this is
  what an object spread and \<open>Object.fromEntries\<close> do, entry by entry. (JavaScript
  enumerates integer-like keys first; the order of properties plays no part below.)
  \<open>Headers_from_record\<close> is the header collection a response gets from such an object.
\<close>

type_synonym js_object = "(string \<times> string) list"

definition obj_set :: "js_object \<Rightarrow> string \<times> string \<Rightarrow> js_object" where
  "obj_set obj p =
     (if list_ex (\<lambda>q. fst q = fst p) obj
      then map (\<lambda>q. if fst q = fst p then (fst q, snd p) else q) obj
      else obj @ [p])"

definition spread :: "js_object \<Rightarrow> (string \<times> string) list \<Rightarrow> js_object" where
  "spread obj entries = foldl obj_set obj entries"

definition Object_fromEntries :: "(string \<times> string) list \<Rightarrow> js_object" where
  "Object_fromEntries entries = spread [] entries"

definition Headers_from_record :: "js_object \<Rightarrow> Headers" where
  "Headers_from_record obj = foldl (\<lambda>h p. Headers_append h (fst p) (snd p)) [] obj"

section \<open>What the platform decides\<close>

text \<open>
  The parts of the platform that differ between runtimes or are too large to model are
  parameters of the model, so that every theorem holds whatever they are:
  \<^item> \<open>parse_URL\<close>: the result of \<open>new URL(input, base)\<close> for an input that is neither
    a plain path nor a scheme-relative reference to a plain host (a URL, or the TypeError
    the parser throws);
  \<^item> \<open>accepts_101\<close>: whether the Response constructor accepts status 101 besides
    200 to 599;
  \<^item> \<open>status_error\<close>, \<open>body_error\<close>: the messages of the RangeError and the TypeError
    that the Response constructor throws.
\<close>

record platform =
  parse_URL :: "string \<Rightarrow> URL \<Rightarrow> js_value + URL"
  accepts_101 :: bool
  status_error :: "nat \<Rightarrow> string"
  body_error :: "nat \<Rightarrow> string"

text \<open>
  \<open>new URL(input, base)\<close> against a base of an http(s) scheme. A plain path replaces the
  path of the base. An input of two slashes, a plain host and nothing or a plain path is a
  scheme-relative reference: the result has the scheme of the base, that host and that
  path, not the host of the base. The new URL has no query in either case. Anything else
  is the platform's to decide.
\<close>

definition new_URL :: "platform \<Rightarrow> string \<Rightarrow> URL \<Rightarrow> js_value + URL" where
  "new_URL pf input base =
     (let authority = takeWhile (\<lambda>c. c \<noteq> CHR ''/'') (drop 2 input);
          path = dropWhile (\<lambda>c. c \<noteq> CHR ''/'') (drop 2 input)
      in if plain_path input then Inr (base\<lparr>pathname := input, searchParams := []\<rparr>)
         else if startsWith input ''//'' \<and> plain_host authority \<and> (path = [] \<or> plain_path path)
         then Inr \<lparr>scheme = scheme base, host = authority,
                   pathname = (if path = [] then ''/'' else path), searchParams = []\<rparr>
         else parse_URL pf input base)"

text \<open>
  \<open>new Response(body, {headers, status})\<close>. The constructor throws a RangeError for a
  status outside 200 to 599 (101 apart, where the platform accepts it) and a TypeError for
  a body that is not null with a null body status (101, 103, 204, 205, 304).
  \<open>built_Response\<close> is the response when it throws neither: a string body brings its own
  content type, which is added only when the headers have none.
\<close>

definition built_Response :: "body \<Rightarrow> js_object \<Rightarrow> nat \<Rightarrow> response" where
  "built_Response b hdrs st =
     \<lparr>headers =
        (let h = Headers_from_record hdrs in
         case b of
           StringBody t \<Rightarrow>
             (if Headers_get h ''content-type'' = None
              then Headers_append h ''content-type'' ''text/plain;charset=UTF-8'' else h)
         | _ \<Rightarrow> h),
      body = b, status = st\<rparr>"

definition status_accepted :: "platform \<Rightarrow> nat \<Rightarrow> bool" where
  "status_accepted pf st \<longleftrightarrow> (200 \<le> st \<and> st \<le> 599) \<or> (st = 101 \<and> accepts_101 pf)"

definition null_body_status :: "nat \<Rightarrow> bool" where
  "null_body_status st \<longleftrightarrow> List.member [101, 103, 204, 205, 304] st"

definition new_Response :: "platform \<Rightarrow> body \<Rightarrow> js_object \<Rightarrow> nat \<Rightarrow> js_value + response" where
  "new_Response pf b hdrs st =
     (if \<not> status_accepted pf st then Inl (JsError (status_error pf st))
      else if b \<noteq> NullBody \<and> null_body_status st then Inl (JsError (body_error pf st))
      else Inr (built_Response b hdrs st))"

section \<open>JSON.stringify of an object with string properties\<close>

definition hex_digit :: "nat \<Rightarrow> char" where
  "hex_digit n = ''0123456789abcdef'' ! (n mod 16)"

definition json_escape :: "char \<Rightarrow> string" where
  "json_escape c =
     (let n = (of_char c :: nat) in
      if c = CHR 0x22 then [CHR 0x5C, CHR 0x22]
      else if c = CHR 0x5C then [CHR 0x5C, CHR 0x5C]
      else if n = 8 then [CHR 0x5C, CHR ''b'']
      else if n = 9 then [CHR 0x5C, CHR ''t'']
      else if n = 10 then [CHR 0x5C, CHR ''n'']
      else if n = 12 then [CHR 0x5C, CHR ''f'']
      else if n = 13 then [CHR 0x5C, CHR ''r'']
      else if n < 32 then [CHR 0x5C, CHR ''u'', CHR ''0'', CHR ''0'', hex_digit (n div 16), hex_digit n]
      else [c])"

definition JSON_quote :: "string \<Rightarrow> string" where
  "JSON_quote t = [CHR 0x22] @ concat (map json_escape t) @ [CHR 0x22]"

definition JSON_stringify :: "js_object \<Rightarrow> string" where
  "JSON_stringify obj =
     ''{'' @ join '','' (map (\<lambda>p. JSON_quote (fst p) @ '':'' @ JSON_quote (snd p)) obj) @ ''}''"

section \<open>Synthetic headers (deny-list form)\<close>

definition PROXY_USER_AGENT :: string where
  "PROXY_USER_AGENT =
     ''Mozilla/5.0 (Windows NT 10.0; Win64; x64) AppleWebKit/537.36 (KHTML, like Gecko) Chrome/120.0.0.0 Safari/537.36''"

definition addProxyHeaders :: "Headers \<Rightarrow> request \<Rightarrow> Headers" where
  "addProxyHeaders hdrs request =
     (let h1 = Headers_set hdrs ''user-agent'' PROXY_USER_AGENT;
          h2 = Headers_set h1 ''accept'' ''application/json, text/plain, */*'';
          h3 = Headers_set h2 ''accept-language'' ''en-US,en;q=0.9'';
          h4 = Headers_set h3 ''accept-encoding'' ''gzip, deflate, br'';
          h5 = Headers_set h4 ''cache-control'' ''no-cache''
      in Headers_set h5 ''pragma'' ''no-cache'')"

section \<open>The outside world: network and timers\<close>

text \<open>
  The network is an oracle: the outcome of the n-th call of \<open>fetch\<close> made so far, a
  response or a thrown value (a transport failure, or the abort that the timer of
  \<open>fetchWithTimeout\<close> causes). The state of the world counts the calls, holds the
  timers that are still pending, and logs what the forwarder did in order. A delay
  \<open>sleep\<close> is awaited, so its timer has fired when it returns. What the code writes
  to the console is not recorded.
\<close>

datatype fetch_outcome = Resolves response | Rejects js_value

type_synonym network = "nat \<Rightarrow> fetch_outcome"

datatype event =
    SetTimeout nat int
  | ClearTimeout nat
  | Fetch URL request_init
  | Sleep int

record world =
  fetched :: nat
  next_timer :: nat
  pending :: "nat list"
  trace :: "event list"

definition setTimeout :: "int \<Rightarrow> world \<Rightarrow> nat \<times> world" where
  "setTimeout ms s =
     (next_timer s,
      s\<lparr>next_timer := Suc (next_timer s), pending := pending s @ [next_timer s],
        trace := trace s @ [SetTimeout (next_timer s) ms]\<rparr>)"

definition clearTimeout :: "nat \<Rightarrow> world \<Rightarrow> world" where
  "clearTimeout timeoutId s =
     s\<lparr>pending := removeAll timeoutId (pending s), trace := trace s @ [ClearTimeout timeoutId]\<rparr>"

definition sleep :: "int \<Rightarrow> world \<Rightarrow> world" where
  "sleep ms s = s\<lparr>trace := trace s @ [Sleep ms]\<rparr>"

definition fetch :: "network \<Rightarrow> URL \<Rightarrow> request_init \<Rightarrow> world \<Rightarrow> fetch_outcome \<times> world" where
  "fetch net input init s =
     (net (fetched s), s\<lparr>fetched := Suc (fetched s), trace := trace s @ [Fetch input init]\<rparr>)"

section \<open>Timeout-bounded call and retry\<close>

definition REQUEST_TIMEOUT :: int where "REQUEST_TIMEOUT = 20000"

definition MAX_RETRIES :: int where "MAX_RETRIES = 2"

definition RETRY_DELAY :: int where "RETRY_DELAY = 1000"

text \<open>
  The three copies of \<open>fetchWithTimeout\<close> differ in one option: the copy of the deny-list
  form adds \<open>duplex: "half"\<close>. The flag \<open>half\<close> selects it. The signal of the call is
  named by the timer that aborts it.
\<close>

definition fetchWithTimeout ::
  "bool \<Rightarrow> network \<Rightarrow> URL \<Rightarrow> request_init \<Rightarrow> int \<Rightarrow> world \<Rightarrow> (js_value + response) \<times> world" where
  "fetchWithTimeout half net u options timeout s =
     (case setTimeout timeout s of
        (timeoutId, s1) \<Rightarrow>
          (case fetch net u
                  (options\<lparr>signal := Some timeoutId,
                           duplex := (if half then Some ''half'' else duplex options)\<rparr>) s1 of
             (Resolves response, s2) \<Rightarrow> (Inr response, clearTimeout timeoutId s2)
           | (Rejects error, s2) \<Rightarrow> (Inl error, clearTimeout timeoutId s2)))"

function fetchWithRetry_loop ::
  "bool \<Rightarrow> network \<Rightarrow> URL \<Rightarrow> request_init \<Rightarrow> int \<Rightarrow> int \<Rightarrow> js_value \<Rightarrow> world
     \<Rightarrow> (js_value + response) \<times> world" where
  "fetchWithRetry_loop half net u options retries attempt lastError s =
     (if attempt \<le> retries then
        (case fetchWithTimeout half net u options REQUEST_TIMEOUT s of
           (Inr response, s1) \<Rightarrow> (Inr response, s1)
         | (Inl error, s1) \<Rightarrow>
             fetchWithRetry_loop half net u options retries (attempt + 1) error
               (if attempt < retries then sleep (RETRY_DELAY * (attempt + 1)) s1 else s1))
      else (Inl lastError, s))"
  by pat_completeness auto
termination
  by (relation "measure (\<lambda>(half, net, u, options, retries, attempt, lastError, s).
                  nat (retries + 1 - attempt))") auto

definition fetchWithRetry ::
  "bool \<Rightarrow> network \<Rightarrow> URL \<Rightarrow> request_init \<Rightarrow> int \<Rightarrow> world \<Rightarrow> (js_value + response) \<times> world" where
  "fetchWithRetry half net u options retries s =
     fetchWithRetry_loop half net u options retries 0 JsNull s"

section \<open>The forwarder\<close>

definition CORS_HEADERS :: js_object where
  "CORS_HEADERS =
     [(''access-control-allow-origin'', ''*''),
      (''access-control-allow-methods'', ''*''),
      (''access-control-allow-headers'', ''*'')]"

text \<open>
  The blocks that every copy of the entry point repeats word for word: the answer to a
  preflight, the upstream URL, and the two halves of the \<open>try\<close> statement. \<open>relay\<close> is
  the rest of the \<open>try\<close> block once the call has returned; the value it throws is caught
  like a failure of the call. \<open>catch_block\<close> is the \<open>catch\<close> block.
\<close>

definition preflight :: "platform \<Rightarrow> js_value + response" where
  "preflight pf = new_Response pf NullBody CORS_HEADERS 200"

definition upstream_url :: "platform \<Rightarrow> request \<Rightarrow> js_value + URL" where
  "upstream_url pf request =
     (case new_URL pf (pathname (url request)) UPSTREAM of
        Inl error \<Rightarrow> Inl error
      | Inr u \<Rightarrow>
          Inr (foldl (\<lambda>u' p. searchParams_append u' (fst p) (snd p)) u
                 (searchParams_delete ''_path'' (searchParams (url request)))))"

definition relay :: "platform \<Rightarrow> response \<Rightarrow> js_value + response" where
  "relay pf response =
     new_Response pf (body response)
       (spread CORS_HEADERS (Object_fromEntries (Headers_entries (headers response))))
       (status response)"

definition error_message :: "js_value \<Rightarrow> string" where
  "error_message error = (case error of JsError m \<Rightarrow> m | _ \<Rightarrow> ''Unknown error'')"

definition catch_block :: "platform \<Rightarrow> js_value \<Rightarrow> js_value + response" where
  "catch_block pf error =
     new_Response pf
       (StringBody (JSON_stringify
          [(''error'', ''Proxy request failed''), (''message'', error_message error)]))
       (spread CORS_HEADERS [(''content-type'', ''application/json'')])
       502"

definition try_catch :: "platform \<Rightarrow> js_value + response \<Rightarrow> js_value + response" where
  "try_catch pf called =
     (case called of
        Inr response \<Rightarrow>
          (case relay pf response of
             Inr relayed \<Rightarrow> Inr relayed
           | Inl error \<Rightarrow> catch_block pf error)
      | Inl error \<Rightarrow> catch_block pf error)"

text \<open>
  The four copies of the entry point (each is the default export of its file):
  \<^item> \<open>proxy_default\<close>: netlify/functions/proxy.ts, one call, allow-list;
  \<^item> \<open>retry_default\<close>: the same with \<open>fetchWithRetry\<close>;
  \<^item> \<open>landing_default\<close>: the same with the landing page for the root path;
  \<^item> \<open>denylist_default\<close>: deny-list filter and synthetic headers, with retry.
  A result \<open>Inr\<close> is the response returned; \<open>Inl\<close> is a value thrown and not caught,
  with which the entry point fails.
\<close>

definition proxy_default ::
  "platform \<Rightarrow> network \<Rightarrow> request \<Rightarrow> world \<Rightarrow> (js_value + response) \<times> world" where
  "proxy_default pf net request s =
     (if method request = ''OPTIONS'' then (preflight pf, s)
      else
        (case upstream_url pf request of
           Inl error \<Rightarrow> (Inl error, s)
         | Inr u \<Rightarrow>
             (case fetch net u
                     \<lparr>headers = pickHeaders (headers request) ALLOWED_HEADERS,
                      body = body request, method = method request,
                      signal = None, duplex = Some ''half''\<rparr> s of
                (Resolves response, s1) \<Rightarrow> (try_catch pf (Inr response), s1)
              | (Rejects error, s1) \<Rightarrow> (try_catch pf (Inl error), s1))))"

definition retry_default ::
  "platform \<Rightarrow> network \<Rightarrow> request \<Rightarrow> world \<Rightarrow> (js_value + response) \<times> world" where
  "retry_default pf net request s =
     (if method request = ''OPTIONS'' then (preflight pf, s)
      else
        (case upstream_url pf request of
           Inl error \<Rightarrow> (Inl error, s)
         | Inr u \<Rightarrow>
             (case fetchWithRetry False net u
                     \<lparr>headers = pickHeaders (headers request) ALLOWED_HEADERS,
                      body = body request, method = method request,
                      signal = None, duplex = None\<rparr> MAX_RETRIES s of
                (called, s1) \<Rightarrow> (try_catch pf called, s1))))"

definition blank_html :: string where
  \<open>blank_html = join [CHR 0x0A]
     [[],
      ''<!DOCTYPE html>'',
      ''<html>'',
      ''<head>'',
      ''  <meta charset="UTF-8">'',
      ''  <title>Google PaLM API proxy on Netlify Edge</title>'',
      ''</head>'',
      ''<body>'',
      ''  <h1 id="google-palm-api-proxy-on-netlify-edge">Google PaLM API proxy on Netlify Edge</h1>'',
      ''  <p>Tips: This project uses a reverse proxy to solve problems such as location restrictions in Google APIs. </p>'',
      ''  <p>If you have any of the following requirements, you may need the support of this project.</p>'',
      ''  <ol>'',
      ''  <li>When you see the error message &quot;User location is not supported for the API use&quot; when calling the Google PaLM API</li>'',
      ''  <li>You want to customize the Google PaLM API</li>'',
      ''  </ol>'',
      ''  <p>For technical discussions, please visit <a href="https://simonmy.com/posts/google-palm-api-proxy-on-netlify-edge.html">https://simonmy.com/posts/google-palm-api-proxy-on-netlify-edge.html</a></p>'',
      ''</body>'',
      ''</html>'',
      ''    '']\<close>

definition landing :: "platform \<Rightarrow> js_value + response" where
  "landing pf =
     new_Response pf (StringBody blank_html)
       (spread CORS_HEADERS [(''content-type'', ''text/html'')]) 200"

definition landing_default ::
  "platform \<Rightarrow> network \<Rightarrow> request \<Rightarrow> world \<Rightarrow> (js_value + response) \<times> world" where
  "landing_default pf net request s =
     (if method request = ''OPTIONS'' then (preflight pf, s)
      else if pathname (url request) = ''/'' then (landing pf, s)
      else
        (case upstream_url pf request of
           Inl error \<Rightarrow> (Inl error, s)
         | Inr u \<Rightarrow>
             (case fetchWithRetry False net u
                     \<lparr>headers = pickHeaders (headers request) ALLOWED_HEADERS,
                      body = body request, method = method request,
                      signal = None, duplex = None\<rparr> MAX_RETRIES s of
                (called, s1) \<Rightarrow> (try_catch pf called, s1))))"

definition denylist_default ::
  "platform \<Rightarrow> network \<Rightarrow> request \<Rightarrow> world \<Rightarrow> (js_value + response) \<times> world" where
  "denylist_default pf net request s =
     (if method request = ''OPTIONS'' then (preflight pf, s)
      else
        (case upstream_url pf request of
           Inl error \<Rightarrow> (Inl error, s)
         | Inr u \<Rightarrow>
             (case fetchWithRetry True net u
                     \<lparr>headers = addProxyHeaders (pickHeaders_deny (headers request) BLOCKED_HEADERS) request,
                      body = body request, method = method request,
                      signal = None, duplex = None\<rparr> MAX_RETRIES s of
                (called, s1) \<Rightarrow> (try_catch pf called, s1))))"

section \<open>The responses the forwarder builds\<close>

text \<open>
  The four responses as the constructor builds them when it accepts its arguments, which
  it does for the three that have a fixed status.
\<close>

definition preflight_response :: response where
  "preflight_response = built_Response NullBody CORS_HEADERS 200"

definition success_response :: "response \<Rightarrow> response" where
  "success_response response =
     built_Response (body response)
       (spread CORS_HEADERS (Object_fromEntries (Headers_entries (headers response))))
       (status response)"

definition error_response :: "js_value \<Rightarrow> response" where
  "error_response error =
     built_Response
       (StringBody (JSON_stringify
          [(''error'', ''Proxy request failed''), (''message'', error_message error)]))
       (spread CORS_HEADERS [(''content-type'', ''application/json'')])
       502"

definition landing_response :: response where
  "landing_response =
     built_Response (StringBody blank_html)
       (spread CORS_HEADERS [(''content-type'', ''text/html'')]) 200"

text \<open>
  An upstream response can be relayed when the constructor accepts its status and body;
  otherwise \<open>relay_error\<close> is the value the constructor throws.
\<close>

definition relayable :: "platform \<Rightarrow> response \<Rightarrow> bool" where
  "relayable pf r \<longleftrightarrow>
     status_accepted pf (status r) \<and> (body r = NullBody \<or> \<not> null_body_status (status r))"

definition relay_error :: "platform \<Rightarrow> response \<Rightarrow> js_value" where
  "relay_error pf r =
     (if \<not> status_accepted pf (status r) then JsError (status_error pf (status r))
      else JsError (body_error pf (status r)))"

text \<open>
  The message the claim of the 502 body describes: the message of an Error that has one,
  and "Unknown error" for an Error without a message and for any other value.
\<close>

definition claimed_message :: "js_value \<Rightarrow> string" where
  "claimed_message error =
     (case error of JsError m \<Rightarrow> (if m = [] then ''Unknown error'' else m) | _ \<Rightarrow> ''Unknown error'')"

section \<open>The effect of one timeout-bounded call\<close>

text \<open>
  Whatever the network answers, one call of \<open>fetchWithTimeout\<close> leaves the world in
  this state: a timer set, the call made, the timer cleared.
\<close>

definition attempt_events :: "bool \<Rightarrow> URL \<Rightarrow> request_init \<Rightarrow> int \<Rightarrow> nat \<Rightarrow> event list" where
  "attempt_events half u options timeout timeoutId =
     [SetTimeout timeoutId timeout,
      Fetch u (options\<lparr>signal := Some timeoutId,
                       duplex := (if half then Some ''half'' else duplex options)\<rparr>),
      ClearTimeout timeoutId]"

definition after_attempt :: "bool \<Rightarrow> URL \<Rightarrow> request_init \<Rightarrow> int \<Rightarrow> world \<Rightarrow> world" where
  "after_attempt half u options timeout s =
     \<lparr>fetched = Suc (fetched s),
      next_timer = Suc (next_timer s),
      pending = removeAll (next_timer s) (pending s),
      trace = trace s @ attempt_events half u options timeout (next_timer s)\<rparr>"

section \<open>Example inputs\<close>

text \<open>A platform whose URL parser rejects whatever the model leaves to it.\<close>

definition strict_platform :: platform where
  "strict_platform =
     \<lparr>parse_URL = (\<lambda>input base. Inl (JsError ''Invalid URL'')), accepts_101 = True,
      status_error = (\<lambda>st. ''status out of range''),
      body_error = (\<lambda>st. ''null body status'')\<rparr>"

definition world0 :: world where
  "world0 = \<lparr>fetched = 0, next_timer = 0, pending = [], trace = []\<rparr>"

definition example_headers :: Headers where
  "example_headers =
     [(''Content-Type'', ''application/json''), (''Cookie'', ''sid=1''),
      (''X-Goog-Api-Key'', ''k''), (''Accept-Encoding'', ''identity'')]"

definition example_request :: request where
  "example_request =
     \<lparr>headers = example_headers, body = NullBody, method = ''GET'',
      url = \<lparr>scheme = ''https'', host = ''proxy.example'', pathname = ''/v1/models'',
             searchParams = [(''_path'', ''ignored''), (''key'', ''abc'')]\<rparr>\<rparr>"

definition preflight_request :: request where
  "preflight_request = example_request\<lparr>method := ''OPTIONS''\<rparr>"

definition example_options :: request_init where
  "example_options =
     \<lparr>headers = [], body = NullBody, method = ''GET'', signal = None, duplex = None\<rparr>"

fun attempt_error :: "nat \<Rightarrow> js_value" where
  "attempt_error 0 = JsError ''connection refused''"
| "attempt_error (Suc 0) = JsError ''connection reset''"
| "attempt_error (Suc (Suc n)) = JsError ''timed out''"

definition always_fails :: network where
  "always_fails n = Rejects (attempt_error n)"

definition fails_without_message :: network where
  "fails_without_message n = Rejects (JsError [])"

definition rate_limited :: response where
  "rate_limited =
     \<lparr>headers = [(''Content-Type'', ''application/json'')], body = StreamBody 1, status = 429\<rparr>"

definition answers_429 :: network where
  "answers_429 n = Resolves rate_limited"

definition second_try_answers :: network where
  "second_try_answers n = (if n = 1 then Resolves rate_limited else Rejects (JsError ''reset''))"

definition example_upstream_url :: URL where
  "example_upstream_url =
     \<lparr>scheme = ''https'', host = ''generativelanguage.googleapis.com'',
      pathname = ''/v1/models'', searchParams = [(''key'', ''abc'')]\<rparr>"

text \<open>The targets of the calls a trace records, in order.\<close>

fun fetched_urls :: "event list \<Rightarrow> URL list" where
  "fetched_urls [] = []"
| "fetched_urls (Fetch u init # es) = u # fetched_urls es"
| "fetched_urls (e # es) = fetched_urls es"

text \<open>A request for \<open>https://proxy.example//evil.example/v1/models?_path=ignored&key=abc\<close>.\<close>

definition scheme_relative_request :: request where
  "scheme_relative_request =
     example_request\<lparr>url := (url example_request)\<lparr>pathname := ''//evil.example/v1/models''\<rparr>\<rparr>"

definition evil_url :: URL where
  "evil_url = \<lparr>scheme = ''https'', host = ''evil.example'', pathname = ''/v1/models'',
                searchParams = [(''key'', ''abc'')]\<rparr>"

text \<open>An upstream response that sets two cookies.\<close>

definition two_cookies :: response where
  "two_cookies =
     \<lparr>headers = [(''Set-Cookie'', ''a=1''), (''Set-Cookie'', ''b=2''),
                 (''Content-Type'', ''application/json'')],
      body = StreamBody 1, status = 200\<rparr>"

definition sets_two_cookies :: network where
  "sets_two_cookies n = Resolves two_cookies"

text \<open>A request for the root path, which the landing-page form answers itself.\<close>

definition landing_request :: request where
  "landing_request = example_request\<lparr>url := (url example_request)\<lparr>pathname := ''/''\<rparr>\<rparr>"

definition landing_upstream_url :: URL where
  "landing_upstream_url =
     \<lparr>scheme = ''https'', host = ''generativelanguage.googleapis.com'',
      pathname = ''/'', searchParams = [(''key'', ''abc'')]\<rparr>"

text \<open>A collection with the same name twice, the second value empty.\<close>

definition trailing_empty_headers :: Headers where
  "trailing_empty_headers = [(''Accept-Encoding'', ''gzip''), (''Accept-Encoding'', [])]"

text \<open>An upstream response with a status the Response constructor rejects.\<close>

definition status_600 :: response where
  "status_600 = \<lparr>headers = [], body = StreamBody 1, status = 600\<rparr>"

definition answers_600 :: network where
  "answers_600 n = Resolves status_600"

section \<open>Properties of the Headers model\<close>

lemma lower_char_idem: "lower_char (lower_char c) = lower_char c"
  by (auto simp: lower_char_def Let_def)

lemma toLowerCase_idem: "toLowerCase (toLowerCase s) = toLowerCase s"
  by (simp add: toLowerCase_def lower_char_idem)

lemma values_of_cong: "same_name a b \<Longrightarrow> values_of h a = values_of h b"
  by (simp add: values_of_def same_name_def)

lemma Headers_get_cong: "same_name a b \<Longrightarrow> Headers_get h a = Headers_get h b"
  by (simp add: Headers_get_def values_of_cong)

lemma values_of_Nil_iff: "values_of h n = [] \<longleftrightarrow> toLowerCase n \<notin> lower_names h"
  by (force simp: values_of_def same_name_def filter_empty_conv lower_names_def)

lemma Headers_get_None_iff: "Headers_get h n = None \<longleftrightarrow> toLowerCase n \<notin> lower_names h"
  using values_of_Nil_iff [of h n] by (auto simp: Headers_get_def split: list.splits)

lemma set_sorted_lowercase_names: "set (sorted_lowercase_names h) = lower_names h"
  by (simp add: sorted_lowercase_names_def lower_names_def)

lemma lower_names_lower: "n \<in> lower_names h \<Longrightarrow> toLowerCase n = n"
  by (auto simp: lower_names_def toLowerCase_idem)

lemma set_Headers_keys: "set (Headers_keys h) = lower_names h"
proof (rule set_eqI)
  fix k
  show "k \<in> set (Headers_keys h) \<longleftrightarrow> k \<in> lower_names h"
  proof
    assume "k \<in> set (Headers_keys h)"
    then show "k \<in> lower_names h"
      by (auto simp: Headers_keys_def Headers_entries_def set_sorted_lowercase_names
               split: if_splits option.splits)
  next
    assume k: "k \<in> lower_names h"
    then have low: "toLowerCase k = k" by (rule lower_names_lower)
    from k low have nv: "values_of h k \<noteq> []" by (simp add: values_of_Nil_iff)
    from k low have ng: "Headers_get h k \<noteq> None" by (simp add: Headers_get_None_iff)
    show "k \<in> set (Headers_keys h)"
    proof (cases "k = ''set-cookie''")
      case True
      from nv obtain v where "v \<in> set (values_of h k)" by (cases "values_of h k") auto
      with k True show ?thesis
        by (force simp: Headers_keys_def Headers_entries_def set_sorted_lowercase_names)
    next
      case False
      from ng obtain v where "Headers_get h k = Some v" by auto
      with k False show ?thesis
        by (force simp: Headers_keys_def Headers_entries_def set_sorted_lowercase_names)
    qed
  qed
qed

lemma values_of_Nil [simp]: "values_of [] m = []"
  by (simp add: values_of_def)

lemma values_of_Cons [simp]:
  "values_of (e # h) m = (if same_name (fst e) m then snd e # values_of h m else values_of h m)"
  by (simp add: values_of_def)

lemma values_of_filter_other:
  "values_of (filter (\<lambda>e. \<not> same_name (fst e) n) h) m = (if same_name n m then [] else values_of h m)"
  by (induction h) (auto simp: same_name_def)

lemma values_of_set_first:
  "values_of (set_first n v h) m =
     (if same_name n m then (if values_of h n = [] then [] else [v]) else values_of h m)"
  by (induction h) (auto simp: values_of_filter_other [unfolded same_name_def] same_name_def)

lemma list_ex_same_name: "list_ex (\<lambda>e. same_name (fst e) n) h \<longleftrightarrow> values_of h n \<noteq> []"
  by (auto simp: list_ex_iff values_of_def filter_empty_conv)

lemma values_of_Headers_set:
  "values_of (Headers_set h n v) m = (if same_name n m then [normalize_value v] else values_of h m)"
  by (auto simp: Headers_set_def list_ex_same_name values_of_set_first Headers_append_def)
     (auto simp: values_of_def same_name_def)

lemma Headers_get_Headers_set:
  "Headers_get (Headers_set h n v) m =
     (if same_name n m then Some (normalize_value v) else Headers_get h m)"
  by (simp add: Headers_get_def values_of_Headers_set)

lemma lower_names_via_get: "lower_names h = {k. toLowerCase k = k \<and> Headers_get h k \<noteq> None}"
  by (auto simp: Headers_get_None_iff lower_names_lower)

lemma pickHeaders_loop_get:
  "Headers_get (pickHeaders_loop h keys ks picked) m =
     (if \<exists>k\<in>set ks. list_ex (\<lambda>p. key_test p k) keys \<and> same_name k m \<and> Headers_get h k \<noteq> None
      then map_option normalize_value (Headers_get h m) else Headers_get picked m)"
proof (induction ks arbitrary: picked)
  case Nil
  show ?case by simp
next
  case (Cons key rest)
  show ?case
  proof (cases "list_ex (\<lambda>p. key_test p key) keys \<and> same_name key m \<and> Headers_get h key \<noteq> None")
    case True
    then obtain v where v: "Headers_get h key = Some v" by auto
    from True have "Headers_get h m = Some v" using Headers_get_cong [of key m h] v by simp
    with True v show ?thesis by (simp add: Cons.IH Headers_get_Headers_set)
  next
    case False
    then show ?thesis
      by (auto simp: Cons.IH Headers_get_Headers_set split: option.splits)
  qed
qed

lemma Headers_get_Nil [simp]: "Headers_get [] m = None"
  by (simp add: Headers_get_def)

lemma same_name_lower_eq: "toLowerCase a = a \<Longrightarrow> toLowerCase b = b \<Longrightarrow> same_name a b \<longleftrightarrow> a = b"
  by (simp add: same_name_def)

lemma Headers_get_pickHeaders:
  "Headers_get (pickHeaders h keys) m =
     (if list_ex (\<lambda>p. key_test p (toLowerCase m)) keys
      then map_option normalize_value (Headers_get h m) else None)"
proof -
  have "(\<exists>k\<in>lower_names h. list_ex (\<lambda>p. key_test p k) keys \<and> same_name k m \<and> Headers_get h k \<noteq> None)
        \<longleftrightarrow> list_ex (\<lambda>p. key_test p (toLowerCase m)) keys \<and> Headers_get h m \<noteq> None"
    (is "?L \<longleftrightarrow> ?R")
  proof
    assume ?L
    then obtain k where k: "k \<in> lower_names h" "list_ex (\<lambda>p. key_test p k) keys"
      "same_name k m" "Headers_get h k \<noteq> None" by blast
    from k(1) have "toLowerCase k = k" by (rule lower_names_lower)
    with k(3) have "toLowerCase m = k" by (simp add: same_name_def)
    with k(2,3,4) show ?R using Headers_get_cong [of k m h] by simp
  next
    assume R: ?R
    then have "toLowerCase m \<in> lower_names h" by (simp add: Headers_get_None_iff)
    moreover have "same_name (toLowerCase m) m" by (simp add: same_name_def toLowerCase_idem)
    moreover from this R have "Headers_get h (toLowerCase m) \<noteq> None"
      using Headers_get_cong [of "toLowerCase m" m h] by simp
    ultimately show ?L using R by blast
  qed
  then show ?thesis
    by (auto simp: pickHeaders_def pickHeaders_loop_get set_Headers_keys)
qed

lemma list_ex_KString: "list_ex (\<lambda>p. key_test p k) (map KString ks) \<longleftrightarrow> k \<in> set ks"
  by (induction ks) auto

lemma keys_pickHeaders_strings:
  "set (Headers_keys (pickHeaders h (map KString ks))) = set (Headers_keys h) \<inter> set ks"
  by (auto simp: set_Headers_keys lower_names_via_get Headers_get_pickHeaders list_ex_KString)

lemma normalize_unchanged:
  assumes "v \<noteq> []" and "\<not> http_whitespace (hd v)" and "\<not> http_whitespace (last v)"
  shows "normalize_value v = v"
proof -
  from assms(1,2) have a: "dropWhile http_whitespace v = v" by (cases v) simp_all
  from assms(1,3) have "dropWhile http_whitespace (rev v) = rev v"
    by (cases "rev v") (simp_all add: hd_rev [symmetric])
  with a show ?thesis by (simp add: normalize_value_def)
qed

text \<open>
  Claim C6 as stated fails where it says that each kept value is copied unmodified: of two
  Accept-Encoding headers, \<open>gzip\<close> and an empty one, the collection gives the combined
  value \<open>gzip, \<close> with a space at its end, and \<open>set\<close> stores it without that space.
\<close>

theorem kept_value_loses_trailing_space:
  "''accept-encoding'' \<in> set (Headers_keys (pickHeaders trailing_empty_headers ALLOWED_HEADERS))
   \<and> Headers_get trailing_empty_headers ''accept-encoding'' = Some ''gzip, ''
   \<and> Headers_get (pickHeaders trailing_empty_headers ALLOWED_HEADERS) ''accept-encoding''
       = Some ''gzip,''
   \<and> Headers_get (pickHeaders trailing_empty_headers ALLOWED_HEADERS) ''accept-encoding''
       \<noteq> Headers_get trailing_empty_headers ''accept-encoding''"
  by code_simp

text \<open>
  Claim C6, amended. For every header collection, the allow-list filter yields a collection
  whose keys are exactly the keys of the input that are equal, as strings, to one of
  content-type, authorization, x-goog-api-client, x-goog-api-key, accept-encoding; each kept
  key has the value the input gives for it with leading and trailing HTTP whitespace
  removed, so the very value when it neither starts nor ends with such whitespace; a name
  that is none of the five (whatever its case) is absent. The comparison is exact for any
  list of strings, so an entry that is not lowercase matches no key.
\<close>

theorem allow_list_filter:
  "set (Headers_keys (pickHeaders h ALLOWED_HEADERS)) = set (Headers_keys h) \<inter> set ALLOWED_NAMES
   \<and> (\<forall>k\<in>set (Headers_keys (pickHeaders h ALLOWED_HEADERS)).
         Headers_get (pickHeaders h ALLOWED_HEADERS) k = map_option normalize_value (Headers_get h k))
   \<and> (\<forall>k\<in>set (Headers_keys (pickHeaders h ALLOWED_HEADERS)). \<forall>v.
         Headers_get h k = Some v \<and> v \<noteq> [] \<and> \<not> http_whitespace (hd v) \<and> \<not> http_whitespace (last v)
         \<longrightarrow> Headers_get (pickHeaders h ALLOWED_HEADERS) k = Some v)
   \<and> (\<forall>n. toLowerCase n \<notin> set ALLOWED_NAMES \<longrightarrow> Headers_get (pickHeaders h ALLOWED_HEADERS) n = None)
   \<and> (\<forall>ks. set (Headers_keys (pickHeaders h (map KString ks))) = set (Headers_keys h) \<inter> set ks)"
proof (intro conjI allI ballI impI)
  show "set (Headers_keys (pickHeaders h ALLOWED_HEADERS)) = set (Headers_keys h) \<inter> set ALLOWED_NAMES"
    unfolding ALLOWED_HEADERS_def by (rule keys_pickHeaders_strings)
next
  fix k assume "k \<in> set (Headers_keys (pickHeaders h ALLOWED_HEADERS))"
  then show "Headers_get (pickHeaders h ALLOWED_HEADERS) k = map_option normalize_value (Headers_get h k)"
    by (auto simp: set_Headers_keys lower_names_via_get Headers_get_pickHeaders split: if_splits)
next
  fix k v
  assume k: "k \<in> set (Headers_keys (pickHeaders h ALLOWED_HEADERS))"
    and v: "Headers_get h k = Some v \<and> v \<noteq> [] \<and> \<not> http_whitespace (hd v) \<and> \<not> http_whitespace (last v)"
  from k have "Headers_get (pickHeaders h ALLOWED_HEADERS) k = map_option normalize_value (Headers_get h k)"
    by (auto simp: set_Headers_keys lower_names_via_get Headers_get_pickHeaders split: if_splits)
  with v show "Headers_get (pickHeaders h ALLOWED_HEADERS) k = Some v"
    by (simp add: normalize_unchanged)
next
  fix n assume "toLowerCase n \<notin> set ALLOWED_NAMES"
  then show "Headers_get (pickHeaders h ALLOWED_HEADERS) n = None"
    by (simp add: Headers_get_pickHeaders ALLOWED_HEADERS_def list_ex_KString)
next
  fix ks show "set (Headers_keys (pickHeaders h (map KString ks))) = set (Headers_keys h) \<inter> set ks"
    by (rule keys_pickHeaders_strings)
qed

theorem allow_list_filter_witness:
  "''content-type'' \<in> set (Headers_keys (pickHeaders example_headers ALLOWED_HEADERS))
   \<and> Headers_get example_headers ''content-type'' = Some ''application/json''
   \<and> Headers_get (pickHeaders example_headers ALLOWED_HEADERS) ''content-type'' = Some ''application/json''
   \<and> ''accept-encoding'' \<in> set (Headers_keys (pickHeaders trailing_empty_headers ALLOWED_HEADERS))
   \<and> Headers_get (pickHeaders trailing_empty_headers ALLOWED_HEADERS) ''accept-encoding''
       = map_option normalize_value (Some ''gzip, '')
   \<and> toLowerCase ''Cookie'' \<notin> set ALLOWED_NAMES
   \<and> Headers_get (pickHeaders example_headers ALLOWED_HEADERS) ''Cookie'' = None"
proof -
  have k: "''content-type'' \<in> set (Headers_keys (pickHeaders example_headers ALLOWED_HEADERS))"
    by code_simp
  have g: "Headers_get example_headers ''content-type'' = Some ''application/json''"
    by code_simp
  have p: "''application/json'' \<noteq> [] \<and> \<not> http_whitespace (hd ''application/json'')
      \<and> \<not> http_whitespace (last ''application/json'')"
    by code_simp
  have k2: "''accept-encoding'' \<in> set (Headers_keys (pickHeaders trailing_empty_headers ALLOWED_HEADERS))"
    by code_simp
  have g2: "Headers_get trailing_empty_headers ''accept-encoding'' = Some ''gzip, ''"
    by code_simp
  have c: "toLowerCase ''Cookie'' \<notin> set ALLOWED_NAMES"
    by code_simp
  from allow_list_filter [of example_headers] k g p
  have 1: "Headers_get (pickHeaders example_headers ALLOWED_HEADERS) ''content-type''
      = Some ''application/json''" by blast
  from allow_list_filter [of trailing_empty_headers] k2 g2
  have 2: "Headers_get (pickHeaders trailing_empty_headers ALLOWED_HEADERS) ''accept-encoding''
       = map_option normalize_value (Some ''gzip, '')" by simp
  from allow_list_filter [of example_headers] c
  have 3: "Headers_get (pickHeaders example_headers ALLOWED_HEADERS) ''Cookie'' = None" by blast
  from k g k2 c 1 2 3 show ?thesis by blast
qed

text \<open>
  Claim C10. A header whose name differs from an allow-list entry only in letter case is
  kept: the keys of the collection are lowercase before they are compared, so the filter
  returns it under the lowercase key with the value of the input (with leading and trailing
  HTTP whitespace removed, as \<open>set\<close> stores it).
\<close>

theorem allow_list_case_folding:
  "(n, v) \<in> set h \<Longrightarrow> toLowerCase n \<in> set ALLOWED_NAMES \<Longrightarrow>
     toLowerCase n \<in> set (Headers_keys (pickHeaders h ALLOWED_HEADERS))
     \<and> Headers_get h n \<noteq> None
     \<and> Headers_get (pickHeaders h ALLOWED_HEADERS) (toLowerCase n)
         = map_option normalize_value (Headers_get h n)"
proof -
  assume mem: "(n, v) \<in> set h" and al: "toLowerCase n \<in> set ALLOWED_NAMES"
  from mem have ln: "toLowerCase n \<in> lower_names h" by (force simp: lower_names_def)
  then have g: "Headers_get h n \<noteq> None" by (simp add: Headers_get_None_iff)
  have sn: "same_name (toLowerCase n) n" by (simp add: same_name_def toLowerCase_idem)
  have eq: "Headers_get (pickHeaders h ALLOWED_HEADERS) (toLowerCase n)
      = map_option normalize_value (Headers_get h n)"
    using al Headers_get_cong [OF sn, of h]
    by (simp add: Headers_get_pickHeaders ALLOWED_HEADERS_def list_ex_KString toLowerCase_idem)
  from ln al have "toLowerCase n \<in> set (Headers_keys h) \<inter> set ALLOWED_NAMES"
    by (simp add: set_Headers_keys)
  then have "toLowerCase n \<in> set (Headers_keys (pickHeaders h ALLOWED_HEADERS))"
    by (simp only: ALLOWED_HEADERS_def keys_pickHeaders_strings)
  with g eq show ?thesis by simp
qed

theorem allow_list_case_folding_witness:
  "(''Content-Type'', ''application/json'') \<in> set example_headers
   \<and> toLowerCase ''Content-Type'' \<in> set ALLOWED_NAMES
   \<and> toLowerCase ''Content-Type'' = ''content-type''
   \<and> Headers_get (pickHeaders example_headers ALLOWED_HEADERS) ''content-type'' = Some ''application/json''"
proof -
  have m: "(''Content-Type'', ''application/json'') \<in> set example_headers" by code_simp
  have a: "toLowerCase ''Content-Type'' \<in> set ALLOWED_NAMES" by code_simp
  have l: "toLowerCase ''Content-Type'' = ''content-type''" by code_simp
  have g: "Headers_get example_headers ''Content-Type'' = Some ''application/json''" by code_simp
  have z: "normalize_value ''application/json'' = ''application/json''" by code_simp
  from allow_list_case_folding [OF m a] l g z m a show ?thesis by simp
qed

declare fetchWithRetry_loop.simps [simp del]

lemma fetchWithTimeout_eq:
  "fetchWithTimeout half net u options timeout s =
     ((case net (fetched s) of Resolves response \<Rightarrow> Inr response | Rejects error \<Rightarrow> Inl error),
      after_attempt half u options timeout s)"
  by (simp add: fetchWithTimeout_def setTimeout_def fetch_def clearTimeout_def after_attempt_def
                attempt_events_def
           split: fetch_outcome.splits)

lemma loop_done:
  "\<not> attempt \<le> retries \<Longrightarrow>
     fetchWithRetry_loop half net u options retries attempt lastError s = (Inl lastError, s)"
  by (subst fetchWithRetry_loop.simps) simp

lemma loop_success:
  "attempt \<le> retries \<Longrightarrow> net (fetched s) = Resolves r \<Longrightarrow>
     fetchWithRetry_loop half net u options retries attempt lastError s =
       (Inr r, after_attempt half u options REQUEST_TIMEOUT s)"
  by (subst fetchWithRetry_loop.simps) (simp add: fetchWithTimeout_eq)

lemma loop_failure:
  "attempt \<le> retries \<Longrightarrow> net (fetched s) = Rejects e \<Longrightarrow>
     fetchWithRetry_loop half net u options retries attempt lastError s =
       fetchWithRetry_loop half net u options retries (attempt + 1) e
         (if attempt < retries
          then sleep (RETRY_DELAY * (attempt + 1)) (after_attempt half u options REQUEST_TIMEOUT s)
          else after_attempt half u options REQUEST_TIMEOUT s)"
  by (subst fetchWithRetry_loop.simps) (simp add: fetchWithTimeout_eq)

lemma after_attempt_sel [simp]:
  "fetched (after_attempt half u options t s) = Suc (fetched s)"
  "next_timer (after_attempt half u options t s) = Suc (next_timer s)"
  "pending (after_attempt half u options t s) = removeAll (next_timer s) (pending s)"
  "trace (after_attempt half u options t s) = trace s @ attempt_events half u options t (next_timer s)"
  by (simp_all add: after_attempt_def)

lemma sleep_sel [simp]:
  "fetched (sleep ms s) = fetched s"
  "next_timer (sleep ms s) = next_timer s"
  "pending (sleep ms s) = pending s"
  "trace (sleep ms s) = trace s @ [Sleep ms]"
  by (simp_all add: sleep_def)

lemma retry_all_fail:
  assumes "net (fetched s) = Rejects e0" "net (Suc (fetched s)) = Rejects e1"
    "net (Suc (Suc (fetched s))) = Rejects e2"
  shows "fetchWithRetry half net u options MAX_RETRIES s =
     (Inl e2,
      after_attempt half u options REQUEST_TIMEOUT
        (sleep 2000 (after_attempt half u options REQUEST_TIMEOUT
          (sleep 1000 (after_attempt half u options REQUEST_TIMEOUT s)))))"
  using assms
  by (simp add: fetchWithRetry_def MAX_RETRIES_def RETRY_DELAY_def loop_failure loop_done)

lemma retry_first_success:
  assumes "net (fetched s) = Resolves r"
  shows "fetchWithRetry half net u options MAX_RETRIES s =
     (Inr r, after_attempt half u options REQUEST_TIMEOUT s)"
  using assms by (simp add: fetchWithRetry_def MAX_RETRIES_def loop_success)

lemma retry_second_success:
  assumes "net (fetched s) = Rejects e0" "net (Suc (fetched s)) = Resolves r"
  shows "fetchWithRetry half net u options MAX_RETRIES s =
     (Inr r, after_attempt half u options REQUEST_TIMEOUT
               (sleep 1000 (after_attempt half u options REQUEST_TIMEOUT s)))"
  using assms
  by (simp add: fetchWithRetry_def MAX_RETRIES_def RETRY_DELAY_def loop_failure loop_success)

lemma retry_third_success:
  assumes "net (fetched s) = Rejects e0" "net (Suc (fetched s)) = Rejects e1"
    "net (Suc (Suc (fetched s))) = Resolves r"
  shows "fetchWithRetry half net u options MAX_RETRIES s =
     (Inr r, after_attempt half u options REQUEST_TIMEOUT
        (sleep 2000 (after_attempt half u options REQUEST_TIMEOUT
          (sleep 1000 (after_attempt half u options REQUEST_TIMEOUT s)))))"
  using assms
  by (simp add: fetchWithRetry_def MAX_RETRIES_def RETRY_DELAY_def loop_failure loop_success)


text \<open>
  Claim C3. With the default of two retries there are three attempts at most. If all three
  calls fail, the wrapper makes exactly three calls, waits 1000 ms after the first and
  2000 ms after the second and not after the third, and fails with the error of the third.
  If the call of attempt k succeeds after k failures, the wrapper returns that response
  after k + 1 calls, the last thing it does being that call.
\<close>

theorem retry_wrapper_attempts:
  "MAX_RETRIES + 1 = 3 \<and> RETRY_DELAY * (0 + 1) = 1000 \<and> RETRY_DELAY * (1 + 1) = 2000
   \<and> ((\<forall>i<3. net (fetched s + i) = Rejects (errs i)) \<longrightarrow>
          fst (fetchWithRetry half net u options MAX_RETRIES s) = Inl (errs 2)
        \<and> fetched (snd (fetchWithRetry half net u options MAX_RETRIES s)) = fetched s + 3
        \<and> trace (snd (fetchWithRetry half net u options MAX_RETRIES s)) =
            trace s
            @ attempt_events half u options REQUEST_TIMEOUT (next_timer s) @ [Sleep 1000]
            @ attempt_events half u options REQUEST_TIMEOUT (next_timer s + 1) @ [Sleep 2000]
            @ attempt_events half u options REQUEST_TIMEOUT (next_timer s + 2))
   \<and> (\<forall>k<3. (\<forall>i<k. net (fetched s + i) = Rejects (errs i)) \<and> net (fetched s + k) = Resolves r \<longrightarrow>
          fst (fetchWithRetry half net u options MAX_RETRIES s) = Inr r
        \<and> fetched (snd (fetchWithRetry half net u options MAX_RETRIES s)) = fetched s + k + 1
        \<and> (\<exists>before. trace (snd (fetchWithRetry half net u options MAX_RETRIES s)) =
              before @ attempt_events half u options REQUEST_TIMEOUT (next_timer s + k)))"
proof (intro conjI impI allI)
  show "MAX_RETRIES + 1 = 3" by (simp add: MAX_RETRIES_def)
  show "RETRY_DELAY * (0 + 1) = 1000" by (simp add: RETRY_DELAY_def)
  show "RETRY_DELAY * (1 + 1) = 2000" by (simp add: RETRY_DELAY_def)
next
  assume all: "\<forall>i<3. net (fetched s + i) = Rejects (errs i)"
  have f0: "net (fetched s) = Rejects (errs 0)"
    using all [rule_format, of 0] by simp
  have f1: "net (Suc (fetched s)) = Rejects (errs 1)"
    using all [rule_format, of 1] by simp
  have f2: "net (Suc (Suc (fetched s))) = Rejects (errs 2)"
    using all [rule_format, of 2] by simp
  note run = retry_all_fail [where net = net and s = s and half = half and u = u and options = options, OF f0 f1 f2]
  show "fst (fetchWithRetry half net u options MAX_RETRIES s) = Inl (errs 2)"
    by (simp add: run)
  show "fetched (snd (fetchWithRetry half net u options MAX_RETRIES s)) = fetched s + 3"
    by (simp add: run)
  show "trace (snd (fetchWithRetry half net u options MAX_RETRIES s)) =
          trace s
          @ attempt_events half u options REQUEST_TIMEOUT (next_timer s) @ [Sleep 1000]
          @ attempt_events half u options REQUEST_TIMEOUT (next_timer s + 1) @ [Sleep 2000]
          @ attempt_events half u options REQUEST_TIMEOUT (next_timer s + 2)"
    by (simp add: run)
next
  fix k :: nat
  assume k: "k < 3"
    and hyp: "(\<forall>i<k. net (fetched s + i) = Rejects (errs i)) \<and> net (fetched s + k) = Resolves r"
  let ?run = "fetchWithRetry half net u options MAX_RETRIES s"
  let ?goal = "fst ?run = Inr r \<and> fetched (snd ?run) = fetched s + k + 1
     \<and> (\<exists>before. trace (snd ?run) =
           before @ attempt_events half u options REQUEST_TIMEOUT (next_timer s + k))"
  from k consider "k = 0" | "k = 1" | "k = 2" by linarith
  then have ?goal
  proof cases
    case 1
    with hyp have "net (fetched s) = Resolves r" by simp
    from retry_first_success [where net = net and s = s and half = half and u = u and options = options, OF this] 1 show ?thesis by simp
  next
    case 2
    with hyp have f0: "net (fetched s) = Rejects (errs 0)"
      and f1: "net (Suc (fetched s)) = Resolves r" by simp_all
    from retry_second_success [where net = net and s = s and half = half and u = u and options = options, OF f0 f1] 2 show ?thesis by simp
  next
    case 3
    from 3 hyp have low: "\<forall>i<2. net (fetched s + i) = Rejects (errs i)" by simp
    have f0: "net (fetched s) = Rejects (errs 0)"
      using low [rule_format, of 0] by simp
    have f1: "net (Suc (fetched s)) = Rejects (errs 1)"
      using low [rule_format, of 1] by simp
    from 3 hyp have f2: "net (Suc (Suc (fetched s))) = Resolves r" by simp
    from retry_third_success [where net = net and s = s and half = half and u = u and options = options, OF f0 f1 f2] 3 show ?thesis by simp
  qed
  then show "fst ?run = Inr r" and "fetched (snd ?run) = fetched s + k + 1"
    and "\<exists>before. trace (snd ?run) =
           before @ attempt_events half u options REQUEST_TIMEOUT (next_timer s + k)"
    by simp_all
qed

theorem retry_wrapper_attempts_witness:
  "always_fails (fetched world0 + 0) = Rejects (JsError ''connection refused'')
   \<and> always_fails (fetched world0 + 1) = Rejects (JsError ''connection reset'')
   \<and> always_fails (fetched world0 + 2) = Rejects (JsError ''timed out'')
   \<and> fst (fetchWithRetry False always_fails UPSTREAM example_options MAX_RETRIES world0)
       = Inl (JsError ''timed out'')
   \<and> fetched (snd (fetchWithRetry False always_fails UPSTREAM example_options MAX_RETRIES world0)) = 3
   \<and> second_try_answers (fetched world0 + 0) = Rejects (JsError ''reset'')
   \<and> second_try_answers (fetched world0 + 1) = Resolves rate_limited
   \<and> fst (fetchWithRetry False second_try_answers UPSTREAM example_options MAX_RETRIES world0)
       = Inr rate_limited
   \<and> fetched (snd (fetchWithRetry False second_try_answers UPSTREAM example_options MAX_RETRIES world0)) = 2"
proof -
  have a: "\<forall>i<3. always_fails (fetched world0 + i) = Rejects (attempt_error i)"
    by (simp add: always_fails_def world0_def)
  have e: "attempt_error 0 = JsError ''connection refused''"
    "attempt_error 1 = JsError ''connection reset''"
    "attempt_error 2 = JsError ''timed out''"
    by (simp_all add: numeral_2_eq_2)
  have b: "\<forall>i<1. second_try_answers (fetched world0 + i) = Rejects (JsError ''reset'')"
    by (simp add: second_try_answers_def world0_def)
  have c: "second_try_answers (fetched world0 + 1) = Resolves rate_limited"
    by (simp add: second_try_answers_def world0_def)
  have w: "fetched world0 = 0" by (simp add: world0_def)
  have w1: "fetched world0 + 1 + 1 = 2" by (simp add: world0_def)
  from retry_wrapper_attempts [where net = always_fails and s = world0
      and errs = attempt_error and half = False and u = UPSTREAM and options = example_options]
    a e w
  have 1: "fst (fetchWithRetry False always_fails UPSTREAM example_options MAX_RETRIES world0)
       = Inl (JsError ''timed out'')
     \<and> fetched (snd (fetchWithRetry False always_fails UPSTREAM example_options MAX_RETRIES world0)) = 3"
    by simp
  have 2: "fst (fetchWithRetry False second_try_answers UPSTREAM example_options MAX_RETRIES world0)
       = Inr rate_limited
     \<and> fetched (snd (fetchWithRetry False second_try_answers UPSTREAM example_options MAX_RETRIES world0)) = 2"
    using retry_wrapper_attempts [where net = second_try_answers and s = world0
      and errs = "\<lambda>i. JsError ''reset''" and r = rate_limited
      and half = False and u = UPSTREAM and options = example_options,
      THEN conjunct2, THEN conjunct2, THEN conjunct2, THEN conjunct2, rule_format, of 1]
      b c w1 by simp
  have a3: "always_fails (fetched world0 + 0) = Rejects (JsError ''connection refused'')"
    "always_fails (fetched world0 + 1) = Rejects (JsError ''connection reset'')"
    "always_fails (fetched world0 + 2) = Rejects (JsError ''timed out'')"
    using a [rule_format, of 0] a [rule_format, of 1] a [rule_format, of 2] e by simp_all
  have b0: "second_try_answers (fetched world0 + 0) = Rejects (JsError ''reset'')"
    using b by simp
  from a3 b0 c 1 2 show ?thesis by simp
qed

text \<open>
  Claim C9. Whether the call resolves or rejects, the timeout-bounded call sets its timer,
  makes the call and clears the timer as its last step; the timer is not pending afterwards.
\<close>

theorem timer_always_cleared:
  "fst (fetchWithTimeout half net u options timeout s) =
     (case net (fetched s) of Resolves response \<Rightarrow> Inr response | Rejects error \<Rightarrow> Inl error)
   \<and> trace (snd (fetchWithTimeout half net u options timeout s)) =
       trace s @
         [SetTimeout (next_timer s) timeout,
          Fetch u (options\<lparr>signal := Some (next_timer s),
                           duplex := (if half then Some ''half'' else duplex options)\<rparr>),
          ClearTimeout (next_timer s)]
   \<and> pending (snd (fetchWithTimeout half net u options timeout s)) =
       removeAll (next_timer s) (pending s)
   \<and> next_timer s \<notin> set (pending (snd (fetchWithTimeout half net u options timeout s)))"
  by (simp add: fetchWithTimeout_eq attempt_events_def)

section \<open>Preflight and the 502 response\<close>

lemma fixed_values_normal:
  "normalize_value ''*'' = ''*''"
  "normalize_value ''application/json'' = ''application/json''"
  "normalize_value ''text/html'' = ''text/html''"
  by code_simp+

lemma Headers_from_record_eq:
  "Headers_from_record obj = map (\<lambda>p. (fst p, normalize_value (snd p))) obj"
proof -
  have "foldl (\<lambda>h p. Headers_append h (fst p) (snd p)) acc obj
          = acc @ map (\<lambda>p. (fst p, normalize_value (snd p))) obj" for acc
    by (induction obj arbitrary: acc) (simp_all add: Headers_append_def)
  from this [of "[]"] show ?thesis by (simp add: Headers_from_record_def)
qed

lemma preflight_response_eq:
  "preflight_response = \<lparr>headers = CORS_HEADERS, body = NullBody, status = 200\<rparr>"
  by (simp add: preflight_response_def built_Response_def Headers_from_record_eq CORS_HEADERS_def
                fixed_values_normal)

lemma fixed_status_accepted:
  "status_accepted pf 200" "status_accepted pf 502"
  "\<not> null_body_status 200" "\<not> null_body_status 502"
  by (simp_all add: status_accepted_def null_body_status_def)

lemma preflight_eq: "preflight pf = Inr preflight_response"
  by (simp add: preflight_def new_Response_def preflight_response_def fixed_status_accepted)

lemma catch_block_eq: "catch_block pf error = Inr (error_response error)"
  by (simp add: catch_block_def new_Response_def error_response_def fixed_status_accepted)

lemma landing_eq: "landing pf = Inr landing_response"
  by (simp add: landing_def new_Response_def landing_response_def fixed_status_accepted)

lemma try_catch_failed: "try_catch pf (Inl error) = Inr (error_response error)"
  by (simp add: try_catch_def catch_block_eq)

text \<open>
  Claim C5. A request with method OPTIONS is answered at once by every copy of the entry
  point: the world is unchanged (no upstream call), the status is 200, the body is null and
  the headers are exactly the three CORS headers.
\<close>

theorem preflight_short_circuit:
  "method request = ''OPTIONS'' \<Longrightarrow>
     proxy_default pf net request s = (Inr preflight_response, s)
   \<and> retry_default pf net request s = (Inr preflight_response, s)
   \<and> landing_default pf net request s = (Inr preflight_response, s)
   \<and> denylist_default pf net request s = (Inr preflight_response, s)
   \<and> status preflight_response = 200
   \<and> body preflight_response = NullBody
   \<and> headers preflight_response =
       [(''access-control-allow-origin'', ''*''), (''access-control-allow-methods'', ''*''),
        (''access-control-allow-headers'', ''*'')]"
  by (simp add: proxy_default_def retry_default_def landing_default_def denylist_default_def
                preflight_eq preflight_response_eq CORS_HEADERS_def)

theorem preflight_short_circuit_witness:
  "method preflight_request = ''OPTIONS''
   \<and> proxy_default strict_platform always_fails preflight_request world0
       = (Inr preflight_response, world0)
   \<and> trace (snd (proxy_default strict_platform always_fails preflight_request world0)) = []
   \<and> status preflight_response = 200"
proof -
  have m: "method preflight_request = ''OPTIONS''" by (simp add: preflight_request_def)
  from preflight_short_circuit [OF m, of strict_platform always_fails world0] m show ?thesis
    by (simp add: world0_def)
qed

lemma content_type_given:
  "Headers_get (Headers_from_record (spread CORS_HEADERS [(''content-type'', v)])) ''content-type''
     = Some (normalize_value v)"
proof -
  have l: "toLowerCase ''content-type'' = ''content-type''"
    "toLowerCase ''access-control-allow-origin'' = ''access-control-allow-origin''"
    "toLowerCase ''access-control-allow-methods'' = ''access-control-allow-methods''"
    "toLowerCase ''access-control-allow-headers'' = ''access-control-allow-headers''"
    by code_simp+
  show ?thesis
    by (simp add: Headers_from_record_eq spread_def CORS_HEADERS_def obj_set_def
                  Headers_get_def same_name_def l)
qed

lemma error_response_eq:
  "error_response error =
     \<lparr>headers = CORS_HEADERS @ [(''content-type'', ''application/json'')],
      body = StringBody (JSON_stringify
               [(''error'', ''Proxy request failed''), (''message'', error_message error)]),
      status = 502\<rparr>"
  unfolding error_response_def built_Response_def
  by (simp add: content_type_given)
     (simp add: Headers_from_record_eq spread_def CORS_HEADERS_def obj_set_def fixed_values_normal)

lemma retry_exhausted:
  assumes "\<forall>i<3. net (fetched s + i) = Rejects (errs i)"
  shows "fetchWithRetry half net u options MAX_RETRIES s =
     (Inl (errs 2),
      after_attempt half u options REQUEST_TIMEOUT
        (sleep 2000 (after_attempt half u options REQUEST_TIMEOUT
          (sleep 1000 (after_attempt half u options REQUEST_TIMEOUT s)))))"
proof -
  have f0: "net (fetched s) = Rejects (errs 0)"
    using assms [rule_format, of 0] by simp
  have f1: "net (Suc (fetched s)) = Rejects (errs 1)"
    using assms [rule_format, of 1] by simp
  have f2: "net (Suc (Suc (fetched s))) = Rejects (errs 2)"
    using assms [rule_format, of 2] by simp
  show ?thesis by (rule retry_all_fail [OF f0 f1 f2])
qed

text \<open>
  Claim C4 as stated fails for an Error without a message: when the call fails with an
  Error whose message is empty, the body carries the empty message, where the claim has
  "Unknown error" for every error that is not an Error with a message.
\<close>

theorem empty_message_is_not_unknown_error:
  "fst (proxy_default strict_platform fails_without_message example_request world0)
     = Inr (error_response (JsError []))
   \<and> body (error_response (JsError [])) =
       StringBody (JSON_stringify [(''error'', ''Proxy request failed''), (''message'', [])])
   \<and> claimed_message (JsError []) = ''Unknown error''
   \<and> body (error_response (JsError [])) \<noteq>
       StringBody (JSON_stringify
         [(''error'', ''Proxy request failed''), (''message'', claimed_message (JsError []))])"
  by code_simp

text \<open>
  Claim C4, amended. For a request that is not OPTIONS and whose upstream URL was built: when
  the call fails (in proxy.ts the one call; in the forms that retry, all three), the response
  has status 502, the three CORS headers and content-type application/json, and the body
  is the JSON text of error "Proxy request failed" and a message: the message of the last
  error when it is an Error, also when that message is empty, and "Unknown error" when the
  thrown value is not an Error.
\<close>

theorem upstream_failure_gives_502:
  assumes "method request \<noteq> ''OPTIONS''" and "upstream_url pf request = Inr u"
  shows "(net (fetched s) = Rejects error \<longrightarrow>
            fst (proxy_default pf net request s) = Inr (error_response error))
   \<and> ((\<forall>i<3. net (fetched s + i) = Rejects (errs i)) \<longrightarrow>
            fst (retry_default pf net request s) = Inr (error_response (errs 2))
          \<and> fst (denylist_default pf net request s) = Inr (error_response (errs 2))
          \<and> (pathname (url request) \<noteq> ''/'' \<longrightarrow>
               fst (landing_default pf net request s) = Inr (error_response (errs 2))))
   \<and> status (error_response error) = 502
   \<and> headers (error_response error) =
       [(''access-control-allow-origin'', ''*''), (''access-control-allow-methods'', ''*''),
        (''access-control-allow-headers'', ''*''), (''content-type'', ''application/json'')]
   \<and> body (error_response error) =
       StringBody (JSON_stringify
         [(''error'', ''Proxy request failed''),
          (''message'', (case error of JsError m \<Rightarrow> m | _ \<Rightarrow> ''Unknown error''))])"
proof (intro conjI impI)
  assume "net (fetched s) = Rejects error"
  with assms show "fst (proxy_default pf net request s) = Inr (error_response error)"
    by (simp add: proxy_default_def fetch_def try_catch_failed)
next
  assume all: "\<forall>i<3. net (fetched s + i) = Rejects (errs i)"
  from assms show "fst (retry_default pf net request s) = Inr (error_response (errs 2))"
    by (simp add: retry_default_def retry_exhausted [OF all] try_catch_failed)
  from assms show "fst (denylist_default pf net request s) = Inr (error_response (errs 2))"
    by (simp add: denylist_default_def retry_exhausted [OF all] try_catch_failed)
  assume "pathname (url request) \<noteq> ''/''"
  with assms show "fst (landing_default pf net request s) = Inr (error_response (errs 2))"
    by (simp add: landing_default_def retry_exhausted [OF all] try_catch_failed)
next
  show "status (error_response error) = 502" by (simp add: error_response_eq)
  show "headers (error_response error) =
       [(''access-control-allow-origin'', ''*''), (''access-control-allow-methods'', ''*''),
        (''access-control-allow-headers'', ''*''), (''content-type'', ''application/json'')]"
    by (simp add: error_response_eq CORS_HEADERS_def)
  show "body (error_response error) =
       StringBody (JSON_stringify
         [(''error'', ''Proxy request failed''),
          (''message'', (case error of JsError m \<Rightarrow> m | _ \<Rightarrow> ''Unknown error''))])"
    by (simp add: error_response_eq error_message_def)
qed

theorem upstream_failure_gives_502_witness:
  "method example_request \<noteq> ''OPTIONS''
   \<and> upstream_url strict_platform example_request = Inr example_upstream_url
   \<and> always_fails (fetched world0) = Rejects (JsError ''connection refused'')
   \<and> fst (proxy_default strict_platform always_fails example_request world0)
       = Inr (error_response (JsError ''connection refused''))
   \<and> always_fails (fetched world0 + 2) = Rejects (JsError ''timed out'')
   \<and> fst (retry_default strict_platform always_fails example_request world0)
       = Inr (error_response (JsError ''timed out''))
   \<and> pathname (url example_request) \<noteq> ''/''
   \<and> fst (landing_default strict_platform always_fails example_request world0)
       = Inr (error_response (JsError ''timed out''))
   \<and> status (error_response (JsError ''timed out'')) = 502
   \<and> body (error_response (JsError ''timed out'')) =
       StringBody (JSON_stringify
         [(''error'', ''Proxy request failed''), (''message'', ''timed out'')])
   \<and> body (error_response (JsError [])) =
       StringBody (JSON_stringify [(''error'', ''Proxy request failed''), (''message'', [])])
   \<and> body (error_response JsNull) =
       StringBody (JSON_stringify
         [(''error'', ''Proxy request failed''), (''message'', ''Unknown error'')])"
proof -
  have m: "method example_request \<noteq> ''OPTIONS''"
    by (simp add: example_request_def)
  have u: "upstream_url strict_platform example_request = Inr example_upstream_url"
    by code_simp
  have p: "pathname (url example_request) \<noteq> ''/''"
    by (simp add: example_request_def)
  have a: "\<forall>i<3. always_fails (fetched world0 + i) = Rejects (attempt_error i)"
    by (simp add: always_fails_def world0_def)
  have e: "attempt_error 0 = JsError ''connection refused''"
    "attempt_error 2 = JsError ''timed out''"
    by (simp_all add: numeral_2_eq_2)
  have a0: "always_fails (fetched world0) = Rejects (JsError ''connection refused'')"
    using a [rule_format, of 0] e by simp
  have a2: "always_fails (fetched world0 + 2) = Rejects (JsError ''timed out'')"
    using a [rule_format, of 2] e by simp
  note t1 = upstream_failure_gives_502 [OF m u, where net = always_fails and s = world0
      and error = "JsError ''connection refused''" and errs = attempt_error]
  note t2 = upstream_failure_gives_502 [OF m u, where net = always_fails and s = world0
      and error = "JsError ''timed out''" and errs = attempt_error]
  note t3 = upstream_failure_gives_502 [OF m u, where net = always_fails and s = world0
      and error = JsNull and errs = attempt_error]
  note t4 = upstream_failure_gives_502 [OF m u, where net = always_fails and s = world0
      and error = "JsError []" and errs = attempt_error]
  from t1 a0 have x: "fst (proxy_default strict_platform always_fails example_request world0)
       = Inr (error_response (JsError ''connection refused''))" by simp
  from t2 a e have r: "fst (retry_default strict_platform always_fails example_request world0)
       = Inr (error_response (JsError ''timed out''))" by simp
  from t2 a e p have l: "fst (landing_default strict_platform always_fails example_request world0)
       = Inr (error_response (JsError ''timed out''))" by simp
  from t2 have b: "status (error_response (JsError ''timed out'')) = 502
    \<and> body (error_response (JsError ''timed out'')) =
       StringBody (JSON_stringify
         [(''error'', ''Proxy request failed''), (''message'', ''timed out'')])" by simp
  from t3 have n: "body (error_response JsNull) =
       StringBody (JSON_stringify
         [(''error'', ''Proxy request failed''), (''message'', ''Unknown error'')])" by simp
  from t4 have z: "body (error_response (JsError [])) =
       StringBody (JSON_stringify [(''error'', ''Proxy request failed''), (''message'', [])])"
    by simp
  from m u p a0 a2 x r l b n z show ?thesis by simp
qed

section \<open>Deny-list filter\<close>

lemma pickHeaders_deny_loop_as_pattern:
  "pickHeaders_deny_loop h blocked ks picked =
     pickHeaders_loop h [KRegExp (\<lambda>key. toLowerCase key \<notin> set blocked)] ks picked"
  by (induction ks arbitrary: picked) simp_all

lemma Headers_get_pickHeaders_deny:
  "Headers_get (pickHeaders_deny h blocked) m =
     (if toLowerCase m \<in> set blocked then None
      else map_option normalize_value (Headers_get h m))"
  using Headers_get_pickHeaders [of h "[KRegExp (\<lambda>key. toLowerCase key \<notin> set blocked)]" m]
  by (simp add: pickHeaders_deny_def pickHeaders_def pickHeaders_deny_loop_as_pattern toLowerCase_idem)

lemma synthetic_names_lower:
  "toLowerCase ''user-agent'' = ''user-agent''"
  "toLowerCase ''accept'' = ''accept''"
  "toLowerCase ''accept-language'' = ''accept-language''"
  "toLowerCase ''accept-encoding'' = ''accept-encoding''"
  "toLowerCase ''cache-control'' = ''cache-control''"
  "toLowerCase ''pragma'' = ''pragma''"
  by code_simp+

lemma synthetic_values_normal:
  "normalize_value PROXY_USER_AGENT = PROXY_USER_AGENT"
  "normalize_value ''application/json, text/plain, */*'' = ''application/json, text/plain, */*''"
  "normalize_value ''en-US,en;q=0.9'' = ''en-US,en;q=0.9''"
  "normalize_value ''gzip, deflate, br'' = ''gzip, deflate, br''"
  "normalize_value ''no-cache'' = ''no-cache''"
  by code_simp+

lemma Headers_get_addProxyHeaders:
  "Headers_get (addProxyHeaders hs request) m =
     (if toLowerCase m = ''pragma'' then Some ''no-cache''
      else if toLowerCase m = ''cache-control'' then Some ''no-cache''
      else if toLowerCase m = ''accept-encoding'' then Some ''gzip, deflate, br''
      else if toLowerCase m = ''accept-language'' then Some ''en-US,en;q=0.9''
      else if toLowerCase m = ''accept'' then Some ''application/json, text/plain, */*''
      else if toLowerCase m = ''user-agent'' then Some PROXY_USER_AGENT
      else Headers_get hs m)"
  by (simp add: addProxyHeaders_def Let_def Headers_get_Headers_set same_name_def
                synthetic_names_lower synthetic_values_normal eq_commute [of _ "toLowerCase m"])

text \<open>
  Claim C7. Under the deny-list, no name that lowercases to a blocked name is left by the
  filter, and the other names keep their values (with leading and trailing HTTP whitespace
  removed, as \<open>set\<close> stores them); after \<open>addProxyHeaders\<close> the six
  synthetic headers have their fixed values whatever the collection held, and the blocked
  names other than user-agent are still absent.
\<close>

theorem deny_list_filter:
  "(\<forall>k. toLowerCase k \<in> set BLOCKED_HEADERS \<longrightarrow>
        Headers_get (pickHeaders_deny h BLOCKED_HEADERS) k = None)
   \<and> set (Headers_keys (pickHeaders_deny h BLOCKED_HEADERS)) = set (Headers_keys h) - set BLOCKED_HEADERS
   \<and> (\<forall>k. toLowerCase k \<notin> set BLOCKED_HEADERS \<longrightarrow>
        Headers_get (pickHeaders_deny h BLOCKED_HEADERS) k
          = map_option normalize_value (Headers_get h k))
   \<and> Headers_get (addProxyHeaders hs request) ''user-agent'' = Some PROXY_USER_AGENT
   \<and> Headers_get (addProxyHeaders hs request) ''accept'' = Some ''application/json, text/plain, */*''
   \<and> Headers_get (addProxyHeaders hs request) ''accept-language'' = Some ''en-US,en;q=0.9''
   \<and> Headers_get (addProxyHeaders hs request) ''accept-encoding'' = Some ''gzip, deflate, br''
   \<and> Headers_get (addProxyHeaders hs request) ''cache-control'' = Some ''no-cache''
   \<and> Headers_get (addProxyHeaders hs request) ''pragma'' = Some ''no-cache''
   \<and> (\<forall>k. toLowerCase k \<in> set BLOCKED_HEADERS \<and> toLowerCase k \<noteq> ''user-agent'' \<longrightarrow>
        Headers_get (addProxyHeaders (pickHeaders_deny h BLOCKED_HEADERS) request) k = None)"
proof (intro conjI allI impI)
  fix k assume "toLowerCase k \<in> set BLOCKED_HEADERS"
  then show "Headers_get (pickHeaders_deny h BLOCKED_HEADERS) k = None"
    by (simp add: Headers_get_pickHeaders_deny)
next
  show "set (Headers_keys (pickHeaders_deny h BLOCKED_HEADERS)) = set (Headers_keys h) - set BLOCKED_HEADERS"
    by (auto simp: set_Headers_keys lower_names_via_get Headers_get_pickHeaders_deny split: if_splits)
next
  fix k assume "toLowerCase k \<notin> set BLOCKED_HEADERS"
  then show "Headers_get (pickHeaders_deny h BLOCKED_HEADERS) k
      = map_option normalize_value (Headers_get h k)"
    by (simp add: Headers_get_pickHeaders_deny)
next
  show "Headers_get (addProxyHeaders hs request) ''user-agent'' = Some PROXY_USER_AGENT"
    by (simp add: Headers_get_addProxyHeaders synthetic_names_lower)
  show "Headers_get (addProxyHeaders hs request) ''accept'' = Some ''application/json, text/plain, */*''"
    by (simp add: Headers_get_addProxyHeaders synthetic_names_lower)
  show "Headers_get (addProxyHeaders hs request) ''accept-language'' = Some ''en-US,en;q=0.9''"
    by (simp add: Headers_get_addProxyHeaders synthetic_names_lower)
  show "Headers_get (addProxyHeaders hs request) ''accept-encoding'' = Some ''gzip, deflate, br''"
    by (simp add: Headers_get_addProxyHeaders synthetic_names_lower)
  show "Headers_get (addProxyHeaders hs request) ''cache-control'' = Some ''no-cache''"
    by (simp add: Headers_get_addProxyHeaders synthetic_names_lower)
  show "Headers_get (addProxyHeaders hs request) ''pragma'' = Some ''no-cache''"
    by (simp add: Headers_get_addProxyHeaders synthetic_names_lower)
next
  fix k assume "toLowerCase k \<in> set BLOCKED_HEADERS \<and> toLowerCase k \<noteq> ''user-agent''"
  then show "Headers_get (addProxyHeaders (pickHeaders_deny h BLOCKED_HEADERS) request) k = None"
    by (auto simp: Headers_get_addProxyHeaders Headers_get_pickHeaders_deny BLOCKED_HEADERS_def)
qed

theorem deny_list_filter_witness:
  "toLowerCase ''Cookie'' \<in> set BLOCKED_HEADERS
   \<and> Headers_get (pickHeaders_deny example_headers BLOCKED_HEADERS) ''Cookie'' = None
   \<and> toLowerCase ''Content-Type'' \<notin> set BLOCKED_HEADERS
   \<and> Headers_get (pickHeaders_deny example_headers BLOCKED_HEADERS) ''Content-Type''
       = Some ''application/json''
   \<and> toLowerCase ''Cookie'' \<noteq> ''user-agent''
   \<and> Headers_get (addProxyHeaders (pickHeaders_deny example_headers BLOCKED_HEADERS) example_request)
         ''Cookie'' = None
   \<and> Headers_get (pickHeaders_deny example_headers BLOCKED_HEADERS) ''accept-encoding''
       = Some ''identity''
   \<and> Headers_get (addProxyHeaders (pickHeaders_deny example_headers BLOCKED_HEADERS) example_request)
         ''accept-encoding'' = Some ''gzip, deflate, br''"
proof -
  have b: "toLowerCase ''Cookie'' \<in> set BLOCKED_HEADERS" by code_simp
  have n: "toLowerCase ''Content-Type'' \<notin> set BLOCKED_HEADERS" by code_simp
  have u: "toLowerCase ''Cookie'' \<noteq> ''user-agent''" by code_simp
  have g: "Headers_get example_headers ''Content-Type'' = Some ''application/json''" by code_simp
  have z: "normalize_value ''application/json'' = ''application/json''" by code_simp
  have s: "Headers_get (pickHeaders_deny example_headers BLOCKED_HEADERS) ''accept-encoding''
       = Some ''identity''" by code_simp
  note t = deny_list_filter [where h = example_headers
      and hs = "pickHeaders_deny example_headers BLOCKED_HEADERS" and request = example_request]
  from t b have 1: "Headers_get (pickHeaders_deny example_headers BLOCKED_HEADERS) ''Cookie'' = None"
    by blast
  from t n g z have 2: "Headers_get (pickHeaders_deny example_headers BLOCKED_HEADERS) ''Content-Type''
       = Some ''application/json''" by simp
  from t b u have 3: "Headers_get (addProxyHeaders (pickHeaders_deny example_headers BLOCKED_HEADERS)
       example_request) ''Cookie'' = None" by blast
  from t have 4: "Headers_get (addProxyHeaders (pickHeaders_deny example_headers BLOCKED_HEADERS)
       example_request) ''accept-encoding'' = Some ''gzip, deflate, br''" by blast
  from b n u s 1 2 3 4 show ?thesis by blast
qed

section \<open>Upstream URL\<close>

lemma foldl_searchParams_append:
  "foldl (\<lambda>u' p. searchParams_append u' (fst p) (snd p)) u ps = u\<lparr>searchParams := searchParams u @ ps\<rparr>"
  by (induction ps arbitrary: u) (simp_all add: searchParams_append_def)

lemma new_URL_plain_path:
  "plain_path input \<Longrightarrow> new_URL pf input base = Inr (base\<lparr>pathname := input, searchParams := []\<rparr>)"
  by (simp add: new_URL_def Let_def)

lemma upstream_url_query:
  assumes "upstream_url pf request = Inr u"
  shows "\<exists>u0. new_URL pf (pathname (url request)) UPSTREAM = Inr u0
     \<and> u = u0\<lparr>searchParams := searchParams u0
              @ filter (\<lambda>q. fst q \<noteq> ''_path'') (searchParams (url request))\<rparr>"
proof (cases "new_URL pf (pathname (url request)) UPSTREAM")
  case (Inl e)
  with assms show ?thesis by (simp add: upstream_url_def)
next
  case (Inr u0)
  with assms show ?thesis
    by (auto simp: upstream_url_def foldl_searchParams_append searchParams_delete_def)
qed

lemma upstream_url_fixed_authority:
  assumes "plain_path (pathname (url request))"
  shows "upstream_url pf request =
     Inr \<lparr>scheme = ''https'', host = ''generativelanguage.googleapis.com'',
          pathname = pathname (url request),
          searchParams = filter (\<lambda>q. fst q \<noteq> ''_path'') (searchParams (url request))\<rparr>"
  using assms
  by (simp add: upstream_url_def new_URL_plain_path foldl_searchParams_append UPSTREAM_def
                searchParams_delete_def)

lemma upstream_url_example: "upstream_url pf example_request = Inr example_upstream_url"
proof -
  have "plain_path (pathname (url example_request))" by code_simp
  from upstream_url_fixed_authority [OF this, of pf] show ?thesis
    by (simp add: example_request_def example_upstream_url_def)
qed

lemma upstream_url_root: "upstream_url pf landing_request = Inr landing_upstream_url"
proof -
  have "plain_path (pathname (url landing_request))" by code_simp
  from upstream_url_fixed_authority [OF this, of pf] show ?thesis
    by (simp add: landing_request_def example_request_def landing_upstream_url_def)
qed

lemma upstream_url_scheme_relative: "upstream_url pf scheme_relative_request = Inr evil_url"
proof -
  let ?p = "''//evil.example/v1/models''"
  have a: "\<not> plain_path ?p" "startsWith ?p ''//''"
    "takeWhile (\<lambda>c. c \<noteq> CHR ''/'') (drop 2 ?p) = ''evil.example''"
    "dropWhile (\<lambda>c. c \<noteq> CHR ''/'') (drop 2 ?p) = ''/v1/models''"
    "plain_host ''evil.example''" "plain_path ''/v1/models''"
    by code_simp+
  have "new_URL pf ?p UPSTREAM =
      Inr \<lparr>scheme = ''https'', host = ''evil.example'', pathname = ''/v1/models'',
           searchParams = []\<rparr>"
    unfolding new_URL_def Let_def by (simp only: a) (simp add: UPSTREAM_def)
  then show ?thesis
    by (simp add: upstream_url_def scheme_relative_request_def example_request_def
                  foldl_searchParams_append searchParams_delete_def evil_url_def)
qed

lemma method_examples:
  "method example_request \<noteq> ''OPTIONS''" "method scheme_relative_request \<noteq> ''OPTIONS''"
  "method landing_request \<noteq> ''OPTIONS''"
  by (simp_all add: example_request_def scheme_relative_request_def landing_request_def)

text \<open>
  Claim C1, at an input where the code departs from it. For the request
  \<open>GET https://proxy.example//evil.example/v1/models?_path=ignored&key=abc\<close> the
  pathname is \<open>//evil.example/v1/models\<close>, which \<open>new URL(pathname, base)\<close> reads as
  a scheme-relative reference: the call goes to host \<open>evil.example\<close>, not to the fixed
  authority. (The query is filtered as claimed.)
\<close>

theorem upstream_host_taken_from_path:
  "upstream_url pf scheme_relative_request = Inr evil_url
   \<and> fetched_urls (trace (snd (proxy_default pf always_fails scheme_relative_request world0)))
       = [evil_url]
   \<and> fetched_urls (trace (snd (retry_default pf always_fails scheme_relative_request world0)))
       = [evil_url, evil_url, evil_url]"
proof (intro conjI)
  show "upstream_url pf scheme_relative_request = Inr evil_url"
    by (rule upstream_url_scheme_relative)
  show "fetched_urls (trace (snd (proxy_default pf always_fails scheme_relative_request world0)))
       = [evil_url]"
    by (simp add: proxy_default_def method_examples upstream_url_scheme_relative fetch_def
                  always_fails_def world0_def)
  have a: "always_fails (fetched world0) = Rejects (JsError ''connection refused'')"
    "always_fails (Suc (fetched world0)) = Rejects (JsError ''connection reset'')"
    "always_fails (Suc (Suc (fetched world0))) = Rejects (JsError ''timed out'')"
    by (simp_all add: always_fails_def world0_def)
  have w: "trace world0 = []" by (simp add: world0_def)
  show "fetched_urls (trace (snd (retry_default pf always_fails scheme_relative_request world0)))
       = [evil_url, evil_url, evil_url]"
    using w
    by (simp add: retry_default_def method_examples upstream_url_scheme_relative
                  retry_all_fail [OF a] attempt_events_def)
qed

lemma relay_eq:
  "relay pf r =
     (if \<not> status_accepted pf (status r) then Inl (JsError (status_error pf (status r)))
      else if body r \<noteq> NullBody \<and> null_body_status (status r)
      then Inl (JsError (body_error pf (status r)))
      else Inr (success_response r))"
  by (simp add: relay_def new_Response_def success_response_def)

lemma relay_accepted:
  assumes "200 \<le> status r" and "status r \<le> 599"
    and "body r = NullBody \<or> \<not> null_body_status (status r)"
  shows "relay pf r = Inr (success_response r)"
  using assms by (auto simp: relay_eq status_accepted_def)

lemma relay_two_cookies: "relay pf two_cookies = Inr (success_response two_cookies)"
  by (rule relay_accepted) (simp_all add: two_cookies_def null_body_status_def)

text \<open>
  Claim C2, at an input where the code departs from it. An upstream response with two
  \<open>Set-Cookie\<close> headers is relayed with the second only: the entries of the upstream
  headers go through \<open>Object.fromEntries\<close>, which keeps one value per key.
\<close>

theorem repeated_set_cookie_collapsed:
  "values_of (headers two_cookies) ''set-cookie'' = [''a=1'', ''b=2'']
   \<and> fst (proxy_default pf sets_two_cookies example_request world0) = Inr (success_response two_cookies)
   \<and> fst (retry_default pf sets_two_cookies example_request world0) = Inr (success_response two_cookies)
   \<and> values_of (headers (success_response two_cookies)) ''set-cookie'' = [''b=2'']"
proof (intro conjI)
  show "values_of (headers two_cookies) ''set-cookie'' = [''a=1'', ''b=2'']"
    by code_simp
  show "values_of (headers (success_response two_cookies)) ''set-cookie'' = [''b=2'']"
    by code_simp
  show "fst (proxy_default pf sets_two_cookies example_request world0)
      = Inr (success_response two_cookies)"
    by (simp add: proxy_default_def method_examples upstream_url_example fetch_def
                  sets_two_cookies_def try_catch_def relay_two_cookies)
  have "sets_two_cookies (fetched world0) = Resolves two_cookies"
    by (simp add: sets_two_cookies_def)
  then show "fst (retry_default pf sets_two_cookies example_request world0)
      = Inr (success_response two_cookies)"
    by (simp add: retry_default_def method_examples upstream_url_example retry_first_success
                  try_catch_def relay_two_cookies)
qed

section \<open>Outcome of the retry wrapper\<close>

lemma retry_outcome:
  "(\<exists>r k. k < 3 \<and> net (fetched s + k) = Resolves r
          \<and> (\<forall>i<k. \<exists>e. net (fetched s + i) = Rejects e)
          \<and> fst (fetchWithRetry half net u options MAX_RETRIES s) = Inr r
          \<and> fetched (snd (fetchWithRetry half net u options MAX_RETRIES s)) = fetched s + k + 1)
   \<or> (\<exists>e. (\<forall>i<3. \<exists>e'. net (fetched s + i) = Rejects e') \<and> net (fetched s + 2) = Rejects e
          \<and> fst (fetchWithRetry half net u options MAX_RETRIES s) = Inl e
          \<and> fetched (snd (fetchWithRetry half net u options MAX_RETRIES s)) = fetched s + 3)"
proof (cases "net (fetched s)")
  case (Resolves r)
  from retry_first_success [where net = net and s = s and half = half and u = u and options = options, OF Resolves] Resolves
  have "0 < (3::nat) \<and> net (fetched s + 0) = Resolves r
     \<and> (\<forall>i<0. \<exists>e. net (fetched s + i) = Rejects e)
     \<and> fst (fetchWithRetry half net u options MAX_RETRIES s) = Inr r
     \<and> fetched (snd (fetchWithRetry half net u options MAX_RETRIES s)) = fetched s + 0 + 1"
    by simp
  then show ?thesis by blast
next
  case e0: (Rejects e0)
  show ?thesis
  proof (cases "net (Suc (fetched s))")
    case (Resolves r)
    from retry_second_success [where net = net and s = s and half = half and u = u and options = options, OF e0 Resolves] e0 Resolves
    have "1 < (3::nat) \<and> net (fetched s + 1) = Resolves r
       \<and> (\<forall>i<1. \<exists>e. net (fetched s + i) = Rejects e)
       \<and> fst (fetchWithRetry half net u options MAX_RETRIES s) = Inr r
       \<and> fetched (snd (fetchWithRetry half net u options MAX_RETRIES s)) = fetched s + 1 + 1"
      by simp
    then show ?thesis by blast
  next
    case e1: (Rejects e1)
    have low: "\<forall>i<2. \<exists>e. net (fetched s + i) = Rejects e"
    proof (intro allI impI)
      fix i :: nat assume "i < 2"
      then consider "i = 0" | "i = 1" by linarith
      then show "\<exists>e. net (fetched s + i) = Rejects e"
        using e0 e1 by cases auto
    qed
    show ?thesis
    proof (cases "net (Suc (Suc (fetched s)))")
      case (Resolves r)
      from retry_third_success [where net = net and s = s and half = half and u = u and options = options, OF e0 e1 Resolves] Resolves low
      have "2 < (3::nat) \<and> net (fetched s + 2) = Resolves r
         \<and> (\<forall>i<2. \<exists>e. net (fetched s + i) = Rejects e)
         \<and> fst (fetchWithRetry half net u options MAX_RETRIES s) = Inr r
         \<and> fetched (snd (fetchWithRetry half net u options MAX_RETRIES s)) = fetched s + 2 + 1"
        by simp
      then show ?thesis by blast
    next
      case e2: (Rejects e2)
      have all: "\<forall>i<3. \<exists>e'. net (fetched s + i) = Rejects e'"
      proof (intro allI impI)
        fix i :: nat assume "i < 3"
        then consider "i = 0" | "i = 1" | "i = 2" by linarith
        then show "\<exists>e'. net (fetched s + i) = Rejects e'"
          using e0 e1 e2 by cases auto
      qed
      from retry_all_fail [where net = net and s = s and half = half and u = u and options = options, OF e0 e1 e2] e2 all
      have "(\<forall>i<3. \<exists>e'. net (fetched s + i) = Rejects e') \<and> net (fetched s + 2) = Rejects e2
          \<and> fst (fetchWithRetry half net u options MAX_RETRIES s) = Inl e2
          \<and> fetched (snd (fetchWithRetry half net u options MAX_RETRIES s)) = fetched s + 3"
        by simp
      then show ?thesis by blast
    qed
  qed
qed

section \<open>Terminal outcomes of the entry point\<close>

lemma landing_response_eq:
  "landing_response =
     \<lparr>headers = CORS_HEADERS @ [(''content-type'', ''text/html'')],
      body = StringBody blank_html, status = 200\<rparr>"
  unfolding landing_response_def built_Response_def
  by (simp add: content_type_given)
     (simp add: Headers_from_record_eq spread_def CORS_HEADERS_def obj_set_def fixed_values_normal)

lemma try_catch_called:
  "try_catch pf (Inr r) =
     (if relayable pf r then Inr (success_response r)
      else Inr (error_response (relay_error pf r)))"
  by (auto simp: try_catch_def relay_eq relayable_def relay_error_def catch_block_eq)

lemma relayable_in_range:
  assumes "200 \<le> status r" and "status r \<le> 599"
    and "body r = NullBody \<or> \<not> null_body_status (status r)"
  shows "relayable pf r"
  using assms by (simp add: relayable_def status_accepted_def)

lemma not_relayable_above: "599 < status r \<Longrightarrow> \<not> relayable pf r"
  by (simp add: relayable_def status_accepted_def)

text \<open>
  Claim C8 as stated fails on the landing-page form: a GET for the root path is answered
  with the HTML landing page, which is not the preflight response, not the relay of a
  response the network delivered and not the 502 response of an error the network raised.
\<close>

theorem landing_page_is_a_fourth_outcome:
  "\<not> (\<forall>pf net request s.
        fst (landing_default pf net request s) = Inr preflight_response
      \<or> (\<exists>r n. net n = Resolves r \<and> fst (landing_default pf net request s) = Inr (success_response r))
      \<or> (\<exists>e n. net n = Rejects e \<and> fst (landing_default pf net request s) = Inr (error_response e)))"
proof
  assume "\<forall>pf net request s.
        fst (landing_default pf net request s) = Inr preflight_response
      \<or> (\<exists>r n. net n = Resolves r \<and> fst (landing_default pf net request s) = Inr (success_response r))
      \<or> (\<exists>e n. net n = Rejects e \<and> fst (landing_default pf net request s) = Inr (error_response e))"
  then have three:
    "fst (landing_default strict_platform always_fails landing_request world0) = Inr preflight_response
      \<or> (\<exists>r n. always_fails n = Resolves r
             \<and> fst (landing_default strict_platform always_fails landing_request world0)
                 = Inr (success_response r))
      \<or> (\<exists>e n. always_fails n = Rejects e
             \<and> fst (landing_default strict_platform always_fails landing_request world0)
                 = Inr (error_response e))"
    by blast
  have run: "fst (landing_default strict_platform always_fails landing_request world0)
      = Inr landing_response"
    by (simp add: landing_default_def landing_request_def example_request_def landing_eq)
  have "landing_response \<noteq> preflight_response"
    by (simp add: landing_response_eq preflight_response_eq)
  moreover have "\<And>r n. always_fails n \<noteq> Resolves r"
    by (simp add: always_fails_def)
  moreover have "\<And>e. landing_response \<noteq> error_response e"
    by (simp add: landing_response_eq error_response_eq)
  ultimately show False using three run by auto
qed

text \<open>
  Claim C8, amended. A request that is OPTIONS, or whose upstream URL can be built, ends in
  exactly one of three outcomes in proxy.ts, told apart by the method and by what the
  network answers: the preflight response; the relay of the upstream response, when the
  call returned one that the Response constructor accepts; the 502 response, when the call
  failed or when the constructor rejected the upstream response (a status above 599 is
  always rejected, a status from 200 to 599 with a body the status allows never). The
  landing-page form has a fourth outcome: a request that is not OPTIONS and asks for the
  root path gets the landing page (status 200, the CORS headers and content-type
  text/html) and no upstream call is made; for any other path it treats the first response
  among the three attempts as above or, when all three fail, answers 502 with the last error.
\<close>

theorem terminal_outcomes:
  "(method request = ''OPTIONS'' \<or> upstream_url pf request = Inr u \<longrightarrow>
      (method request = ''OPTIONS''
         \<and> fst (proxy_default pf net request s) = Inr preflight_response)
    \<or> (method request \<noteq> ''OPTIONS''
         \<and> (\<exists>r. net (fetched s) = Resolves r \<and> relayable pf r
                \<and> fst (proxy_default pf net request s) = Inr (success_response r)))
    \<or> (method request \<noteq> ''OPTIONS''
         \<and> (\<exists>r. net (fetched s) = Resolves r \<and> \<not> relayable pf r
                \<and> fst (proxy_default pf net request s) = Inr (error_response (relay_error pf r))))
    \<or> (method request \<noteq> ''OPTIONS''
         \<and> (\<exists>e. net (fetched s) = Rejects e
                \<and> fst (proxy_default pf net request s) = Inr (error_response e))))
   \<and> (method request = ''OPTIONS'' \<or> pathname (url request) = ''/''
        \<or> upstream_url pf request = Inr u \<longrightarrow>
      (method request = ''OPTIONS''
         \<and> fst (landing_default pf net request s) = Inr preflight_response)
    \<or> (method request \<noteq> ''OPTIONS'' \<and> pathname (url request) = ''/''
         \<and> landing_default pf net request s = (Inr landing_response, s))
    \<or> (method request \<noteq> ''OPTIONS'' \<and> pathname (url request) \<noteq> ''/''
         \<and> (\<exists>r k. k < 3 \<and> net (fetched s + k) = Resolves r
                \<and> (\<forall>i<k. \<exists>e. net (fetched s + i) = Rejects e) \<and> relayable pf r
                \<and> fst (landing_default pf net request s) = Inr (success_response r)))
    \<or> (method request \<noteq> ''OPTIONS'' \<and> pathname (url request) \<noteq> ''/''
         \<and> (\<exists>r k. k < 3 \<and> net (fetched s + k) = Resolves r
                \<and> (\<forall>i<k. \<exists>e. net (fetched s + i) = Rejects e) \<and> \<not> relayable pf r
                \<and> fst (landing_default pf net request s)
                    = Inr (error_response (relay_error pf r))))
    \<or> (method request \<noteq> ''OPTIONS'' \<and> pathname (url request) \<noteq> ''/''
         \<and> (\<exists>e. (\<forall>i<3. \<exists>e'. net (fetched s + i) = Rejects e')
                \<and> net (fetched s + 2) = Rejects e
                \<and> fst (landing_default pf net request s) = Inr (error_response e))))
   \<and> (599 < status r \<longrightarrow> \<not> relayable pf r)
   \<and> (200 \<le> status r \<and> status r \<le> 599 \<and> (body r = NullBody \<or> \<not> null_body_status (status r))
        \<longrightarrow> relayable pf r)
   \<and> status landing_response = 200
   \<and> body landing_response = StringBody blank_html
   \<and> headers landing_response =
       [(''access-control-allow-origin'', ''*''), (''access-control-allow-methods'', ''*''),
        (''access-control-allow-headers'', ''*''), (''content-type'', ''text/html'')]"
proof (intro conjI)
  show "method request = ''OPTIONS'' \<or> upstream_url pf request = Inr u \<longrightarrow>
      (method request = ''OPTIONS''
         \<and> fst (proxy_default pf net request s) = Inr preflight_response)
    \<or> (method request \<noteq> ''OPTIONS''
         \<and> (\<exists>r. net (fetched s) = Resolves r \<and> relayable pf r
                \<and> fst (proxy_default pf net request s) = Inr (success_response r)))
    \<or> (method request \<noteq> ''OPTIONS''
         \<and> (\<exists>r. net (fetched s) = Resolves r \<and> \<not> relayable pf r
                \<and> fst (proxy_default pf net request s) = Inr (error_response (relay_error pf r))))
    \<or> (method request \<noteq> ''OPTIONS''
         \<and> (\<exists>e. net (fetched s) = Rejects e
                \<and> fst (proxy_default pf net request s) = Inr (error_response e)))"
  proof (cases "method request = ''OPTIONS''")
    case True
    then show ?thesis by (simp add: proxy_default_def preflight_eq)
  next
    case False
    show ?thesis
    proof
      assume "method request = ''OPTIONS'' \<or> upstream_url pf request = Inr u"
      with False have u: "upstream_url pf request = Inr u" by simp
      from False u show "(method request = ''OPTIONS''
         \<and> fst (proxy_default pf net request s) = Inr preflight_response)
        \<or> (method request \<noteq> ''OPTIONS''
         \<and> (\<exists>r. net (fetched s) = Resolves r \<and> relayable pf r
                \<and> fst (proxy_default pf net request s) = Inr (success_response r)))
        \<or> (method request \<noteq> ''OPTIONS''
         \<and> (\<exists>r. net (fetched s) = Resolves r \<and> \<not> relayable pf r
                \<and> fst (proxy_default pf net request s) = Inr (error_response (relay_error pf r))))
        \<or> (method request \<noteq> ''OPTIONS''
         \<and> (\<exists>e. net (fetched s) = Rejects e
                \<and> fst (proxy_default pf net request s) = Inr (error_response e)))"
        by (cases "net (fetched s)")
           (simp_all add: proxy_default_def fetch_def try_catch_called try_catch_failed)
    qed
  qed
next
  let ?opts = "\<lparr>headers = pickHeaders (headers request) ALLOWED_HEADERS,
      body = body request, method = method request, signal = None, duplex = None\<rparr>"
  let ?L = "landing_default pf net request s"
  let ?concl = "(method request = ''OPTIONS'' \<and> fst ?L = Inr preflight_response)
    \<or> (method request \<noteq> ''OPTIONS'' \<and> pathname (url request) = ''/''
         \<and> ?L = (Inr landing_response, s))
    \<or> (method request \<noteq> ''OPTIONS'' \<and> pathname (url request) \<noteq> ''/''
         \<and> (\<exists>r k. k < 3 \<and> net (fetched s + k) = Resolves r
                \<and> (\<forall>i<k. \<exists>e. net (fetched s + i) = Rejects e) \<and> relayable pf r
                \<and> fst ?L = Inr (success_response r)))
    \<or> (method request \<noteq> ''OPTIONS'' \<and> pathname (url request) \<noteq> ''/''
         \<and> (\<exists>r k. k < 3 \<and> net (fetched s + k) = Resolves r
                \<and> (\<forall>i<k. \<exists>e. net (fetched s + i) = Rejects e) \<and> \<not> relayable pf r
                \<and> fst ?L = Inr (error_response (relay_error pf r))))
    \<or> (method request \<noteq> ''OPTIONS'' \<and> pathname (url request) \<noteq> ''/''
         \<and> (\<exists>e. (\<forall>i<3. \<exists>e'. net (fetched s + i) = Rejects e')
                \<and> net (fetched s + 2) = Rejects e
                \<and> fst ?L = Inr (error_response e)))"
  show "method request = ''OPTIONS'' \<or> pathname (url request) = ''/''
        \<or> upstream_url pf request = Inr u \<longrightarrow> ?concl"
  proof (cases "method request = ''OPTIONS''")
    case True
    then show ?thesis by (simp add: landing_default_def preflight_eq)
  next
    case notopt: False
    show ?thesis
    proof (cases "pathname (url request) = ''/''")
      case True
      with notopt show ?thesis by (simp add: landing_default_def landing_eq)
    next
      case False
      show ?thesis
      proof
        assume "method request = ''OPTIONS'' \<or> pathname (url request) = ''/''
          \<or> upstream_url pf request = Inr u"
        with notopt False have u: "upstream_url pf request = Inr u" by simp
        have L: "fst ?L = try_catch pf (fst (fetchWithRetry False net u ?opts MAX_RETRIES s))"
          using notopt False u by (simp add: landing_default_def split: prod.splits)
        from retry_outcome [of net s False u ?opts]
        show ?concl
        proof
          assume "\<exists>r k. k < 3 \<and> net (fetched s + k) = Resolves r
            \<and> (\<forall>i<k. \<exists>e. net (fetched s + i) = Rejects e)
            \<and> fst (fetchWithRetry False net u ?opts MAX_RETRIES s) = Inr r
            \<and> fetched (snd (fetchWithRetry False net u ?opts MAX_RETRIES s)) = fetched s + k + 1"
          then obtain r k where k: "k < 3" "net (fetched s + k) = Resolves r"
            "\<forall>i<k. \<exists>e. net (fetched s + i) = Rejects e"
            "fst (fetchWithRetry False net u ?opts MAX_RETRIES s) = Inr r" by blast
          show ?concl
          proof (cases "relayable pf r")
            case True
            with L k(4) have "fst ?L = Inr (success_response r)"
              by (simp add: try_catch_called)
            with k True notopt False show ?thesis by blast
          next
            case nr: False
            with L k(4) have "fst ?L = Inr (error_response (relay_error pf r))"
              by (simp add: try_catch_called)
            with k nr notopt False show ?thesis by blast
          qed
        next
          assume "\<exists>e. (\<forall>i<3. \<exists>e'. net (fetched s + i) = Rejects e')
            \<and> net (fetched s + 2) = Rejects e
            \<and> fst (fetchWithRetry False net u ?opts MAX_RETRIES s) = Inl e
            \<and> fetched (snd (fetchWithRetry False net u ?opts MAX_RETRIES s)) = fetched s + 3"
          then obtain e where e: "\<forall>i<3. \<exists>e'. net (fetched s + i) = Rejects e'"
            "net (fetched s + 2) = Rejects e"
            "fst (fetchWithRetry False net u ?opts MAX_RETRIES s) = Inl e" by blast
          from L e(3) have "fst ?L = Inr (error_response e)"
            by (simp add: try_catch_failed)
          with e notopt False show ?thesis by blast
        qed
      qed
    qed
  qed
next
  show "599 < status r \<longrightarrow> \<not> relayable pf r"
    by (simp add: not_relayable_above)
  show "200 \<le> status r \<and> status r \<le> 599 \<and> (body r = NullBody \<or> \<not> null_body_status (status r))
        \<longrightarrow> relayable pf r"
    by (simp add: relayable_in_range)
  show "status landing_response = 200" by (simp add: landing_response_eq)
  show "body landing_response = StringBody blank_html" by (simp add: landing_response_eq)
  show "headers landing_response =
        [(''access-control-allow-origin'', ''*''), (''access-control-allow-methods'', ''*''),
         (''access-control-allow-headers'', ''*''), (''content-type'', ''text/html'')]"
    by (simp add: landing_response_eq CORS_HEADERS_def)
qed

theorem terminal_outcomes_witness:
  "method preflight_request = ''OPTIONS''
   \<and> fst (proxy_default strict_platform always_fails preflight_request world0)
       = Inr preflight_response
   \<and> upstream_url strict_platform example_request = Inr example_upstream_url
   \<and> fst (proxy_default strict_platform always_fails example_request world0)
       = Inr (error_response (JsError ''connection refused''))
   \<and> relayable strict_platform rate_limited
   \<and> fst (proxy_default strict_platform answers_429 example_request world0)
       = Inr (success_response rate_limited)
   \<and> 599 < status status_600
   \<and> fst (proxy_default strict_platform answers_600 example_request world0)
       = Inr (error_response (JsError ''status out of range''))
   \<and> fst (landing_default strict_platform second_try_answers example_request world0)
       = Inr (success_response rate_limited)
   \<and> pathname (url landing_request) = ''/''
   \<and> landing_default strict_platform always_fails landing_request world0
       = (Inr landing_response, world0)"
proof -
  have o: "method preflight_request = ''OPTIONS''" by (simp add: preflight_request_def)
  have u: "upstream_url strict_platform example_request = Inr example_upstream_url"
    by (rule upstream_url_example)
  have p: "pathname (url example_request) \<noteq> ''/''" "pathname (url landing_request) = ''/''"
    by (simp_all add: example_request_def landing_request_def)
  have a: "always_fails (fetched world0) = Rejects (JsError ''connection refused'')"
    by (simp add: always_fails_def world0_def)
  have n4: "answers_429 (fetched world0) = Resolves rate_limited"
    by (simp add: answers_429_def)
  have n6: "answers_600 (fetched world0) = Resolves status_600"
    by (simp add: answers_600_def)
  have s6: "599 < status status_600" by (simp add: status_600_def)
  have ok: "200 \<le> status rate_limited \<and> status rate_limited \<le> 599
      \<and> (body rate_limited = NullBody \<or> \<not> null_body_status (status rate_limited))"
    by (simp add: rate_limited_def null_body_status_def)
  have e6: "relay_error strict_platform status_600 = JsError ''status out of range''"
    by (simp add: relay_error_def status_accepted_def status_600_def strict_platform_def)
  have b: "\<And>n r. second_try_answers n = Resolves r \<Longrightarrow> r = rate_limited"
    by (simp add: second_try_answers_def split: if_splits)
  have c: "\<not> (\<forall>i<3. \<exists>e'. second_try_answers (fetched world0 + i) = Rejects e')"
    by (auto simp: second_try_answers_def world0_def intro!: exI [of _ 1])
  note t = terminal_outcomes [where pf = strict_platform and s = world0]
  from t [where request = preflight_request and net = always_fails] o
  have 0: "fst (proxy_default strict_platform always_fails preflight_request world0)
       = Inr preflight_response" by auto
  from t [where request = example_request and net = always_fails and u = example_upstream_url]
    u method_examples a
  have 1: "fst (proxy_default strict_platform always_fails example_request world0)
       = Inr (error_response (JsError ''connection refused''))" by auto
  from t [where r = rate_limited] ok
  have r4: "relayable strict_platform rate_limited" by blast
  from t [where request = example_request and net = answers_429 and u = example_upstream_url]
    u method_examples n4 r4
  have 2: "fst (proxy_default strict_platform answers_429 example_request world0)
       = Inr (success_response rate_limited)" by auto
  from t [where r = status_600] s6
  have r6: "\<not> relayable strict_platform status_600" by blast
  from t [where request = example_request and net = answers_600 and u = example_upstream_url]
    u method_examples n6 r6 e6
  have 3: "fst (proxy_default strict_platform answers_600 example_request world0)
       = Inr (error_response (JsError ''status out of range''))" by auto
  from t [where request = example_request and net = second_try_answers
      and u = example_upstream_url] u method_examples p b c r4
  have 4: "fst (landing_default strict_platform second_try_answers example_request world0)
       = Inr (success_response rate_limited)" by auto
  from t [where request = landing_request and net = always_fails] method_examples p
  have 5: "landing_default strict_platform always_fails landing_request world0
      = (Inr landing_response, world0)" by auto
  from o u p s6 r4 0 1 2 3 4 5 show ?thesis by simp
qed

lemma success_response_status_body:
  "status (success_response r) = status r \<and> body (success_response r) = body r"
  by (simp add: success_response_def built_Response_def)

lemma forwarded_once:
  assumes "method request \<noteq> ''OPTIONS''" and "upstream_url pf request = Inr u"
    and "net (fetched s) = Resolves r" and "relayable pf r"
  shows "fst (proxy_default pf net request s) = Inr (success_response r)"
    and "fetched (snd (proxy_default pf net request s)) = fetched s + 1"
    and "fst (retry_default pf net request s) = Inr (success_response r)"
    and "fetched (snd (retry_default pf net request s)) = fetched s + 1"
  using assms
  by (simp_all add: proxy_default_def fetch_def retry_default_def retry_first_success
                    try_catch_called)

lemma rejected_status_gives_502:
  assumes "method request \<noteq> ''OPTIONS''" and "upstream_url pf request = Inr u"
    and "net (fetched s) = Resolves r" and "599 < status r"
  shows "fst (proxy_default pf net request s)
      = Inr (error_response (JsError (status_error pf (status r))))"
  using assms
  by (simp add: proxy_default_def fetch_def try_catch_called relayable_def relay_error_def
                status_accepted_def)

lemma url_failure_is_thrown:
  assumes "method request \<noteq> ''OPTIONS''" and "upstream_url pf request = Inl e"
  shows "proxy_default pf net request s = (Inl e, s)"
    and "retry_default pf net request s = (Inl e, s)"
  using assms by (simp_all add: proxy_default_def retry_default_def)

lemma error_body_example:
  \<open>JSON_stringify [(''error'', ''Proxy request failed''), (''message'', ''timed out'')]
     = ''{"error":"Proxy request failed","message":"timed out"}''\<close>
  by code_simp

section \<open>Headers of a relayed response\<close>

text \<open>
  What holds of the headers of a relayed response: for every name but \<open>set-cookie\<close>,
  the relayed value is the upstream value (all headers of that name combined, leading and
  trailing HTTP whitespace removed), and the CORS value where upstream has none.
\<close>

lemma list_ex_key: "list_ex (\<lambda>q. fst q = k) obj \<longleftrightarrow> k \<in> set (map fst obj)"
  by (induction obj) auto

lemma keys_replace: "map fst (map (\<lambda>q. if fst q = k then (fst q, v) else q) obj) = map fst obj"
  by (induction obj) auto

lemma map_of_replace:
  "map_of (map (\<lambda>q. if fst q = k then (fst q, v) else q) obj) k' =
     (if k' = k then (case map_of obj k of None \<Rightarrow> None | Some w \<Rightarrow> Some v) else map_of obj k')"
  by (induction obj) auto

lemma map_of_obj_set:
  "map_of (obj_set obj p) k = (if k = fst p then Some (snd p) else map_of obj k)"
proof (cases "fst p \<in> set (map fst obj)")
  case True
  then obtain w where "map_of obj (fst p) = Some w"
    by (cases "map_of obj (fst p)") (auto simp: map_of_eq_None_iff)
  with True show ?thesis by (simp add: obj_set_def list_ex_key map_of_replace)
next
  case False
  then have "map_of obj (fst p) = None" by (simp add: map_of_eq_None_iff)
  with False show ?thesis
    by (cases p) (simp add: obj_set_def list_ex_key map_add_def split: option.splits)
qed

lemma keys_obj_set: "set (map fst (obj_set obj p)) = insert (fst p) (set (map fst obj))"
proof (cases "fst p \<in> set (map fst obj)")
  case True
  then show ?thesis
    by (simp only: obj_set_def list_ex_key if_True keys_replace) auto
next
  case False
  then show ?thesis
    by (simp only: obj_set_def list_ex_key if_False) simp
qed

lemma distinct_obj_set: "distinct (map fst obj) \<Longrightarrow> distinct (map fst (obj_set obj p))"
proof (cases "fst p \<in> set (map fst obj)")
  case True
  assume "distinct (map fst obj)"
  with True show ?thesis
    by (simp only: obj_set_def list_ex_key if_True keys_replace)
next
  case False
  assume "distinct (map fst obj)"
  with False show ?thesis
    by (simp only: obj_set_def list_ex_key if_False) simp
qed


lemma map_of_spread:
  "map_of (spread obj es) k =
     (case map_of (rev es) k of Some v \<Rightarrow> Some v | None \<Rightarrow> map_of obj k)"
  unfolding spread_def
proof (induction es arbitrary: obj)
  case Nil
  show ?case by simp
next
  case (Cons e es)
  show ?case
    by (cases e) (simp add: Cons.IH map_of_obj_set map_add_def split: option.splits)
qed

lemma keys_spread: "set (map fst (spread obj es)) = set (map fst obj) \<union> set (map fst es)"
  unfolding spread_def
proof (induction es arbitrary: obj)
  case Nil
  show ?case by simp
next
  case (Cons e es)
  have "set (map fst (foldl obj_set (obj_set obj e) es)) =
          set (map fst (obj_set obj e)) \<union> set (map fst es)"
    by (rule Cons.IH)
  then show ?case by (simp only: foldl_Cons keys_obj_set) auto
qed

lemma distinct_spread: "distinct (map fst obj) \<Longrightarrow> distinct (map fst (spread obj es))"
  unfolding spread_def
  by (induction es arbitrary: obj) (simp_all add: distinct_obj_set)

lemma values_of_distinct_lower:
  assumes "distinct (map fst L)" and "\<forall>e\<in>set L. toLowerCase (fst e) = fst e"
  shows "values_of L n = (case map_of L (toLowerCase n) of None \<Rightarrow> [] | Some v \<Rightarrow> [v])"
  using assms
proof (induction L)
  case Nil
  show ?case by simp
next
  case (Cons e L)
  then have IH: "values_of L n = (case map_of L (toLowerCase n) of None \<Rightarrow> [] | Some v \<Rightarrow> [v])"
    by simp
  from Cons.prems have low: "toLowerCase (fst e) = fst e" by simp
  show ?case
  proof (cases "fst e = toLowerCase n")
    case True
    with Cons.prems have "toLowerCase n \<notin> set (map fst L)" by auto
    then have "map_of L (toLowerCase n) = None" by (simp add: map_of_eq_None_iff)
    with True low IH show ?thesis by (cases e) (simp add: same_name_def)
  next
    case False
    with low IH show ?thesis by (cases e) (simp add: same_name_def)
  qed
qed

lemma values_of_map_values:
  fixes L :: Headers
  shows "values_of (map (\<lambda>p. (fst p, f (snd p))) L) n = map f (values_of L n)"
  by (induction L) simp_all

lemma Headers_get_distinct_lower:
  fixes L :: Headers
  assumes "distinct (map fst L)" and "\<forall>e\<in>set L. toLowerCase (fst e) = fst e"
  shows "Headers_get (map (\<lambda>p. (fst p, f (snd p))) L) n = map_option f (map_of L (toLowerCase n))"
  by (simp add: Headers_get_def values_of_map_values values_of_distinct_lower [OF assms]
           split: option.splits)


lemma map_of_rev_distinct:
  assumes "distinct (map fst xs)"
  shows "map_of (rev xs) k = map_of xs k"
proof (cases "map_of xs k")
  case None
  then have "k \<notin> set (map fst (rev xs))" by (simp add: map_of_eq_None_iff)
  then have "map_of (rev xs) k = None" by (simp only: map_of_eq_None_iff set_map not_False_eq_True)
  with None show ?thesis by simp
next
  case (Some v)
  with assms have "(k, v) \<in> set (rev xs)" by simp
  moreover from assms have "distinct (map fst (rev xs))" by (simp only: rev_map [symmetric] distinct_rev)
  ultimately have "map_of (rev xs) k = Some v" by (simp only: map_of_eq_Some_iff)
  with Some show ?thesis by simp
qed

lemma keys_Headers_entries: "set (map fst (Headers_entries h)) = lower_names h"
  using set_Headers_keys [of h] by (simp add: Headers_keys_def)

lemma map_of_rev_entries_gen:
  assumes "k \<noteq> ''set-cookie''"
  shows "map_of (rev (concat (map (\<lambda>name.
           if name = ''set-cookie'' then map (\<lambda>v. (name, v)) (values_of h name)
           else (case Headers_get h name of None \<Rightarrow> [] | Some v \<Rightarrow> [(name, v)])) ns))) k
         = (if k \<in> set ns then Headers_get h k else None)"
proof (induction ns)
  case Nil
  show ?case by simp
next
  case (Cons n ns)
  let ?F = "\<lambda>name. if name = ''set-cookie'' then map (\<lambda>v. (name, v)) (values_of h name)
           else (case Headers_get h name of None \<Rightarrow> [] | Some v \<Rightarrow> [(name, v)])"
  have one: "map_of (rev (?F n)) k = (if n = k then Headers_get h k else None)"
  proof (cases "n = k")
    case True
    with assms show ?thesis by (simp split: option.splits)
  next
    case False
    have "k \<notin> set (map fst (rev (?F n)))"
      using False by (auto split: option.splits)
    then have "map_of (rev (?F n)) k = None"
      by (simp only: map_of_eq_None_iff set_map not_False_eq_True)
    with False show ?thesis by simp
  qed
  have "map_of (rev (concat (map ?F (n # ns)))) k =
          (case map_of (rev (concat (map ?F ns))) k of
             None \<Rightarrow> map_of (rev (?F n)) k | Some v \<Rightarrow> Some v)"
    by (simp add: map_add_def)
  also have "\<dots> = (if k \<in> set (n # ns) then Headers_get h k else None)"
    by (simp only: Cons.IH one) (auto split: option.splits)
  finally show ?case .
qed

lemma map_of_rev_entries:
  assumes "k \<noteq> ''set-cookie''" and "toLowerCase k = k"
  shows "map_of (rev (Headers_entries h)) k = Headers_get h k"
proof -
  have "map_of (rev (Headers_entries h)) k = (if k \<in> lower_names h then Headers_get h k else None)"
    unfolding Headers_entries_def
    by (simp only: map_of_rev_entries_gen [OF assms(1)] set_sorted_lowercase_names)
  moreover have "k \<notin> lower_names h \<Longrightarrow> Headers_get h k = None"
    using assms(2) Headers_get_None_iff [of h k] by simp
  ultimately show ?thesis by simp
qed

lemma CORS_HEADERS_keys:
  "distinct (map fst CORS_HEADERS)" "\<forall>e\<in>set CORS_HEADERS. toLowerCase (fst e) = fst e"
proof -
  show "distinct (map fst CORS_HEADERS)" by (simp add: CORS_HEADERS_def)
  have "toLowerCase ''access-control-allow-origin'' = ''access-control-allow-origin''"
    "toLowerCase ''access-control-allow-methods'' = ''access-control-allow-methods''"
    "toLowerCase ''access-control-allow-headers'' = ''access-control-allow-headers''"
    by code_simp+
  then show "\<forall>e\<in>set CORS_HEADERS. toLowerCase (fst e) = fst e"
    by (simp add: CORS_HEADERS_def)
qed

lemma relayed_headers:
  assumes "\<forall>t. body r \<noteq> StringBody t" and "toLowerCase n \<noteq> ''set-cookie''"
  shows "Headers_get (headers (success_response r)) n =
     map_option normalize_value
       (case Headers_get (headers r) n of
          Some v \<Rightarrow> Some v
        | None \<Rightarrow> map_of CORS_HEADERS (toLowerCase n))"
proof -
  let ?E = "Headers_entries (headers r)"
  let ?X = "Object_fromEntries ?E"
  let ?obj = "spread CORS_HEADERS ?X"
  let ?k = "toLowerCase n"
  have hs: "headers (success_response r) = map (\<lambda>p. (fst p, normalize_value (snd p))) ?obj"
    using assms(1)
    by (cases "body r") (simp_all add: success_response_def built_Response_def Headers_from_record_eq)
  have dX: "distinct (map fst ?X)"
    unfolding Object_fromEntries_def by (rule distinct_spread) simp
  have kX: "set (map fst ?X) = lower_names (headers r)"
    unfolding Object_fromEntries_def by (simp only: keys_spread keys_Headers_entries) simp
  have dobj: "distinct (map fst ?obj)"
    by (rule distinct_spread) (rule CORS_HEADERS_keys(1))
  have "set (map fst ?obj) = set (map fst CORS_HEADERS) \<union> lower_names (headers r)"
    by (simp only: keys_spread kX)
  then have lobj: "\<forall>e\<in>set ?obj. toLowerCase (fst e) = fst e"
    using CORS_HEADERS_keys(2) lower_names_lower [of _ "headers r"] by force
  have kk: "toLowerCase ?k = ?k" by (rule toLowerCase_idem)
  have "map_of ?X ?k = map_of (rev ?E) ?k"
    unfolding Object_fromEntries_def by (simp add: map_of_spread split: option.splits)
  also have "\<dots> = Headers_get (headers r) ?k"
    by (rule map_of_rev_entries [OF assms(2) kk])
  also have "\<dots> = Headers_get (headers r) n"
    by (rule Headers_get_cong) (simp add: same_name_def toLowerCase_idem)
  finally have X: "map_of (rev ?X) ?k = Headers_get (headers r) n"
    by (simp only: map_of_rev_distinct [OF dX])
  have "Headers_get (map (\<lambda>p. (fst p, normalize_value (snd p))) ?obj) n
      = map_option normalize_value (map_of ?obj ?k)"
    by (rule Headers_get_distinct_lower [OF dobj lobj])
  also have "map_of ?obj ?k = (case Headers_get (headers r) n of
        Some v \<Rightarrow> Some v | None \<Rightarrow> map_of CORS_HEADERS ?k)"
    by (simp only: map_of_spread X)
  finally show ?thesis by (simp only: hs)
qed

end
